theory Spec2Isabelle
  imports Main
begin

section \<open>Strings and paths\<close>

text \<open>
  The downloader works on Python strings. The string methods it uses are modelled on
  \<open>string\<close> (a list of characters): \<open>str.endswith\<close>, \<open>str.replace\<close> with the
  one-character pattern \<open>"/"\<close> (the only pattern the source uses), and the \<open>posixpath\<close>
  functions \<open>os.path.join\<close> (two arguments) and \<open>os.path.basename\<close>.
\<close>

definition endswith :: "string \<Rightarrow> string \<Rightarrow> bool" where
  "endswith s suf = (take (length suf) (rev s) = rev suf)"

definition replace_slash :: "string \<Rightarrow> string \<Rightarrow> string" where
  "replace_slash rep s = concat (map (\<lambda>c. if c = CHR ''/'' then rep else [c]) s)"

definition startswith_slash :: "string \<Rightarrow> bool" where
  "startswith_slash s = (case s of [] \<Rightarrow> False | c # _ \<Rightarrow> c = CHR ''/'')"

definition endswith_slash :: "string \<Rightarrow> bool" where
  "endswith_slash s = (s \<noteq> [] \<and> last s = CHR ''/'')"

definition os_path_join :: "string \<Rightarrow> string \<Rightarrow> string" where
  "os_path_join a b =
     (if startswith_slash b then b
      else if a = [] \<or> endswith_slash a then a @ b
      else a @ ''/'' @ b)"

definition os_path_basename :: "string \<Rightarrow> string" where
  "os_path_basename p = rev (takeWhile (\<lambda>c. c \<noteq> CHR ''/'') (rev p))"

text \<open>
  A path string names a node of the file tree through its components: the pieces
  between slashes, empty pieces dropped. Components are compared literally (\<open>.\<close>,
  \<open>..\<close> and symbolic links are not interpreted), and a relative path is resolved
  against the root.
\<close>

primrec comps :: "string \<Rightarrow> string list" where
  "comps [] = [[]]"
| "comps (c # cs) =
     (if c = CHR ''/'' then [] # comps cs
      else (case comps cs of [] \<Rightarrow> [[c]] | x # xs \<Rightarrow> (c # x) # xs))"

definition split_path :: "string \<Rightarrow> string list" where
  "split_path p = filter (\<lambda>x. x \<noteq> []) (comps p)"

section \<open>The file tree\<close>

text \<open>
  The filesystem is a tree: a regular file with its bytes, or a directory mapping
  names to nodes. A path exists when walking its components from the root finds a
  node, so a file inside a directory cannot exist without the directory.
\<close>

datatype node = File string | Dir "string \<Rightarrow> node option"

datatype os_error = FileExistsError | NotADirectoryError | IsADirectoryError
  | FileNotFound | SameFileError | DestinationExists

fun lookup :: "node \<Rightarrow> string list \<Rightarrow> node option" where
  "lookup n [] = Some n"
| "lookup (File _) (x # xs) = None"
| "lookup (Dir m) (x # xs) = (case m x of None \<Rightarrow> None | Some n \<Rightarrow> lookup n xs)"

text \<open>
  \<open>os.path.exists\<close> and \<open>os.path.isdir\<close>: the empty string names nothing, and a
  path with a trailing slash names only a directory.
\<close>

definition os_path_exists :: "node \<Rightarrow> string \<Rightarrow> bool" where
  "os_path_exists root p =
     (p \<noteq> [] \<and>
      (case lookup root (split_path p) of
         None \<Rightarrow> False
       | Some (Dir _) \<Rightarrow> True
       | Some (File _) \<Rightarrow> \<not> endswith_slash p))"

definition os_path_isdir :: "node \<Rightarrow> string \<Rightarrow> bool" where
  "os_path_isdir root p =
     (p \<noteq> [] \<and>
      (case lookup root (split_path p) of Some (Dir _) \<Rightarrow> True | _ \<Rightarrow> False))"

text \<open>
  \<open>os.makedirs(name, exist_ok=True)\<close>: walks the components, creates every missing
  directory, accepts an existing directory, and raises when a component is a
  regular file (\<open>FileExistsError\<close> for the last one, \<open>NotADirectoryError\<close>
  before) or when the name is empty.
\<close>

fun mkdirs :: "node \<Rightarrow> string list \<Rightarrow> os_error + node" where
  "mkdirs (Dir m) [] = Inr (Dir m)"
| "mkdirs (File c) [] = Inl FileExistsError"
| "mkdirs (File c) (x # xs) = Inl NotADirectoryError"
| "mkdirs (Dir m) (x # xs) =
     (case mkdirs (case m x of None \<Rightarrow> Dir (\<lambda>_. None) | Some n \<Rightarrow> n) xs of
        Inl e \<Rightarrow> Inl e
      | Inr n' \<Rightarrow> Inr (Dir (m(x \<mapsto> n'))))"

definition os_makedirs :: "node \<Rightarrow> string \<Rightarrow> os_error + node" where
  "os_makedirs root name =
     (if name = [] then Inl FileNotFound else mkdirs root (split_path name))"

text \<open>
  \<open>open(path, "wb")\<close> followed by \<open>write\<close>: the parent must be an existing
  directory and the target must not be a directory; the file is created or
  replaced.
\<close>

fun write_file :: "node \<Rightarrow> string list \<Rightarrow> string \<Rightarrow> os_error + node" where
  "write_file (File _) p c = Inl NotADirectoryError"
| "write_file (Dir m) [] c = Inl IsADirectoryError"
| "write_file (Dir m) [x] c =
     (case m x of
        Some (Dir _) \<Rightarrow> Inl IsADirectoryError
      | _ \<Rightarrow> Inr (Dir (m(x \<mapsto> File c))))"
| "write_file (Dir m) (x # y # ys) c =
     (case m x of
        None \<Rightarrow> Inl FileNotFound
      | Some n \<Rightarrow>
          (case write_file n (y # ys) c of
             Inl e \<Rightarrow> Inl e
           | Inr n' \<Rightarrow> Inr (Dir (m(x \<mapsto> n')))))"

definition open_write :: "node \<Rightarrow> string \<Rightarrow> string \<Rightarrow> os_error + node" where
  "open_write root p c =
     (if p = [] then Inl FileNotFound
      else if endswith_slash p then Inl IsADirectoryError
      else write_file root (split_path p) c)"

definition read_file :: "node \<Rightarrow> string \<Rightarrow> os_error + string" where
  "read_file root p =
     (if p = [] then Inl FileNotFound
      else case lookup root (split_path p) of
             None \<Rightarrow> Inl FileNotFound
           | Some (Dir _) \<Rightarrow> Inl IsADirectoryError
           | Some (File c) \<Rightarrow> if endswith_slash p then Inl NotADirectoryError else Inr c)"

text \<open>
  \<open>shutil.copy(src, dst)\<close>: a destination that is a directory receives the file
  under the source's base name; copying a file onto itself raises.
\<close>

definition shutil_copy :: "node \<Rightarrow> string \<Rightarrow> string \<Rightarrow> os_error + node" where
  "shutil_copy root src dst =
     (let dst' = (if os_path_isdir root dst then os_path_join dst (os_path_basename src) else dst)
      in if os_path_exists root src \<and> os_path_exists root dst' \<and> split_path src = split_path dst'
         then Inl SameFileError
         else case read_file root src of
                Inl e \<Rightarrow> Inl e
              | Inr c \<Rightarrow> open_write root dst' c)"

section \<open>The outside world\<close>

text \<open>
  The remote services and the library calls that reach them are parameters of the
  model, collected in \<open>env\<close>: the URL parser, the HTTP GET (a transport failure, or a
  status with the body), the repository listing of \<open>HfApi.list_repo_tree\<close> (taken
  whole), \<open>hf_hub_download\<close> (the bytes of the named file), \<open>snapshot_download\<close> and
  \<open>CLIPTokenizer.from_pretrained\<close> (whatever they do to the file tree, and whether
  they raise), the expansion of a leading \<open>~\<close>, and the name of the directory that
  \<open>tempfile.TemporaryDirectory\<close> creates. A library failure carries the library's
  message.

  An entry of a listing is a \<open>RepoFile\<close>, with a path and a size that may be
  \<open>None\<close>, or a \<open>RepoFolder\<close>, which has no \<open>size\<close> attribute.
\<close>

datatype repo_entry = RepoFile string "int option" | RepoFolder string

fun path :: "repo_entry \<Rightarrow> string" where
  "path (RepoFile p _) = p"
| "path (RepoFolder p) = p"

datatype repo_type = RModel | RDataset

record env =
  urlparse_path :: "string \<Rightarrow> string"
  http_get :: "string \<Rightarrow> string + (int \<times> string)"
  list_repo_tree :: "string \<Rightarrow> string + repo_entry list"
  hf_hub_download :: "string \<Rightarrow> string \<Rightarrow> string + string"
  snapshot_download ::
    "string \<Rightarrow> repo_type \<Rightarrow> string \<Rightarrow> string list option \<Rightarrow> node \<Rightarrow> (string + unit) \<times> node"
  clip_from_pretrained :: "string \<Rightarrow> string \<Rightarrow> node \<Rightarrow> (string + unit) \<times> node"
  expand_tilde :: "string \<Rightarrow> string"
  mkdtemp :: string

text \<open>
  The state a call runs in: the file tree and the calls made to the remote services so
  far, in order. A function of the program takes the state and returns its result, an
  error (the exception raised) or a value, with the state it leaves.

  A call is recorded with its arguments: the URL of a GET request; the repository
  listed; the repository, file name and target directory of \<open>hf_hub_download\<close>;
  the repository, repository type, target directory and \<open>allow_patterns\<close> of
  \<open>snapshot_download\<close>; the name and cache directory of a tokenizer.

  The errors: \<open>DownloadFailed\<close> is the exception of the transport with the HTTP status
  in its message, \<open>NoValidFile\<close> the \<open>FileNotFoundError\<close> that
  \<open>download_flux_unet\<close> raises itself, \<open>OSError\<close> a failure of a file operation,
  \<open>LibraryError\<close> an exception of a library call, and \<open>ArgumentError\<close> the exit of
  the argument parser.
\<close>

datatype event =
    HttpGet string
  | ListRepoTree string
  | HubDownload string string string
  | SnapshotDownload string repo_type string "string list option"
  | ClipFromPretrained string string

record world =
  fs :: node
  calls :: "event list"

datatype error =
    DownloadFailed int
  | NoValidFile string
  | UnboundLocalError
  | OSError os_error
  | LibraryError string
  | ArgumentError

definition bind ::
  "(world \<Rightarrow> (error + 'a) \<times> world) \<Rightarrow> ('a \<Rightarrow> world \<Rightarrow> (error + 'b) \<times> world) \<Rightarrow>
   world \<Rightarrow> (error + 'b) \<times> world" where
  "bind m f st = (case m st of (Inl e, st') \<Rightarrow> (Inl e, st') | (Inr x, st') \<Rightarrow> f x st')"

definition makedirs :: "string \<Rightarrow> world \<Rightarrow> (error + unit) \<times> world" where
  "makedirs name st =
     (case os_makedirs (fs st) name of
        Inl e \<Rightarrow> (Inl (OSError e), st)
      | Inr root' \<Rightarrow> (Inr (), st\<lparr>fs := root'\<rparr>))"

definition snapshot ::
  "env \<Rightarrow> string \<Rightarrow> repo_type \<Rightarrow> string \<Rightarrow> string list option \<Rightarrow> world \<Rightarrow> (error + unit) \<times> world" where
  "snapshot env repo_id rt local_dir allow st =
     (let st1 = st\<lparr>calls := calls st @ [SnapshotDownload repo_id rt local_dir allow]\<rparr>
      in case snapshot_download env repo_id rt local_dir allow (fs st1) of
           (Inl e, root') \<Rightarrow> (Inl (LibraryError e), st1\<lparr>fs := root'\<rparr>)
         | (Inr u, root') \<Rightarrow> (Inr (), st1\<lparr>fs := root'\<rparr>))"

definition clip_tokenizer :: "env \<Rightarrow> string \<Rightarrow> string \<Rightarrow> world \<Rightarrow> (error + unit) \<times> world" where
  "clip_tokenizer env name cache_dir st =
     (let st1 = st\<lparr>calls := calls st @ [ClipFromPretrained name cache_dir]\<rparr>
      in case clip_from_pretrained env name cache_dir (fs st1) of
           (Inl e, root') \<Rightarrow> (Inl (LibraryError e), st1\<lparr>fs := root'\<rparr>)
         | (Inr u, root') \<Rightarrow> (Inr (), st1\<lparr>fs := root'\<rparr>))"

definition expanduser :: "env \<Rightarrow> string \<Rightarrow> string" where
  "expanduser env p = (case p of c # _ \<Rightarrow> if c = CHR ''~'' then expand_tilde env p else p | [] \<Rightarrow> p)"

section \<open>The downloader\<close>

subsection \<open>Transport\<close>

text \<open>
  \<open>download_s3_file(file_url, save_path=None, tmp_dir="/tmp")\<close>. The target
  (\<open>local_file_path\<close>, computed before the request) is \<open>save_path\<close> when it is
  given and not empty (the file inside it when it is a directory), and the URL's base
  name inside \<open>tmp_dir\<close> otherwise.
\<close>

definition local_file_path_of :: "env \<Rightarrow> node \<Rightarrow> string \<Rightarrow> string option \<Rightarrow> string \<Rightarrow> string" where
  "local_file_path_of env root file_url save_path tmp_dir =
     (let file_name = os_path_basename (urlparse_path env file_url)
      in case save_path of
           None \<Rightarrow> os_path_join tmp_dir file_name
         | Some sp \<Rightarrow>
             if sp = [] then os_path_join tmp_dir file_name
             else if os_path_isdir root sp then os_path_join sp file_name
             else sp)"

definition download_s3_file ::
  "env \<Rightarrow> string \<Rightarrow> string option \<Rightarrow> string \<Rightarrow> world \<Rightarrow> (error + string) \<times> world" where
  "download_s3_file env file_url save_path tmp_dir st =
     (let local_file_path = local_file_path_of env (fs st) file_url save_path tmp_dir;
          st1 = st\<lparr>calls := calls st @ [HttpGet file_url]\<rparr>
      in case http_get env file_url of
           Inl e \<Rightarrow> (Inl (LibraryError e), st1)
         | Inr (status, body) \<Rightarrow>
             if status = 200 then
               (case open_write (fs st1) local_file_path body of
                  Inl e \<Rightarrow> (Inl (OSError e), st1)
                | Inr root' \<Rightarrow> (Inr local_file_path, st1\<lparr>fs := root'\<rparr>))
             else (Inl (DownloadFailed status), st1))"

subsection \<open>Datasets\<close>

text \<open>
  \<open>download_text_dataset\<close>. The format arrives as the optional string of the command
  line and is compared with \<open>"s3"\<close> and \<open>"hf"\<close>; with any other value no branch binds
  \<open>input_data_path\<close> and the \<open>return\<close> raises \<open>UnboundLocalError\<close>.
\<close>

definition download_text_dataset ::
  "env \<Rightarrow> string \<Rightarrow> string \<Rightarrow> string option \<Rightarrow> string \<Rightarrow> world \<Rightarrow>
   (error + string \<times> string option) \<times> world" where
  "download_text_dataset env task_id dataset_url file_format dataset_dir =
     bind (makedirs dataset_dir) (\<lambda>_ st1.
       if file_format = Some ''s3'' then
         (let dataset_filename = task_id @ ''_train_data.json'';
              input_data_path = os_path_join dataset_dir dataset_filename
          in if \<not> os_path_exists (fs st1) input_data_path then
               bind (download_s3_file env dataset_url None ''/tmp'') (\<lambda>local_path st2.
                 case shutil_copy (fs st2) local_path input_data_path of
                   Inl e \<Rightarrow> (Inl (OSError e), st2)
                 | Inr root' \<Rightarrow> (Inr (input_data_path, file_format), st2\<lparr>fs := root'\<rparr>)) st1
             else (Inr (input_data_path, file_format), st1))
       else if file_format = Some ''hf'' then
         (let repo_name = replace_slash ''--'' dataset_url;
              input_data_path = os_path_join dataset_dir repo_name
          in if \<not> os_path_exists (fs st1) input_data_path then
               bind (snapshot env dataset_url RDataset input_data_path None)
                 (\<lambda>_ st2. (Inr (input_data_path, file_format), st2)) st1
             else (Inr (input_data_path, file_format), st1))
       else (Inl UnboundLocalError, st1))"

definition download_image_dataset ::
  "env \<Rightarrow> string \<Rightarrow> string \<Rightarrow> string \<Rightarrow> world \<Rightarrow> (error + string) \<times> world" where
  "download_image_dataset env dataset_zip_url task_id dataset_dir =
     bind (makedirs dataset_dir) (\<lambda>_.
       download_s3_file env dataset_zip_url (Some (dataset_dir @ ''/'' @ task_id @ ''.zip'')) ''/tmp'')"

subsection \<open>File selection\<close>

text \<open>
  The loop of \<open>is_safetensors_available\<close>, with the size it compares against as a
  parameter: it keeps the entry seen so far (\<open>largest_file\<close>, \<open>None\<close> at the start)
  and replaces it only by a strictly larger entry. An entry counts when it has a size,
  its path ends in \<open>.safetensors\<close> and its size is above the check size. The
  entry kept was stored by this test, so it has a size; the case of a kept entry
  without one is never reached from the loop's start.
\<close>

fun has_size :: "repo_entry \<Rightarrow> int option" where
  "has_size (RepoFile _ s) = s"
| "has_size (RepoFolder _) = None"

definition qualifies :: "int \<Rightarrow> repo_entry \<Rightarrow> bool" where
  "qualifies check_size file =
     (case has_size file of
        None \<Rightarrow> False
      | Some s \<Rightarrow> endswith (path file) ''.safetensors'' \<and> s > check_size)"

definition largest_step :: "int \<Rightarrow> repo_entry option \<Rightarrow> repo_entry \<Rightarrow> repo_entry option" where
  "largest_step check_size largest_file file =
     (case has_size file of
        None \<Rightarrow> largest_file
      | Some s \<Rightarrow>
          if endswith (path file) ''.safetensors'' \<and> s > check_size then
            (case largest_file of
               None \<Rightarrow> Some file
             | Some l \<Rightarrow>
                 (case has_size l of
                    Some ls \<Rightarrow> if s > ls then Some file else largest_file
                  | None \<Rightarrow> largest_file))
          else largest_file)"

definition largest_over :: "int \<Rightarrow> repo_entry list \<Rightarrow> repo_entry option" where
  "largest_over check_size files = foldl (largest_step check_size) None files"

definition total_check_size :: int where
  "total_check_size = 6 * 1024 * 1024 * 1024"

definition is_safetensors_available ::
  "env \<Rightarrow> string \<Rightarrow> world \<Rightarrow> (error + bool \<times> string option) \<times> world" where
  "is_safetensors_available env repo_id st =
     (let st1 = st\<lparr>calls := calls st @ [ListRepoTree repo_id]\<rparr>
      in case list_repo_tree env repo_id of
           Inl e \<Rightarrow> (Inl (LibraryError e), st1)
         | Inr files_metadata \<Rightarrow>
             (case largest_over total_check_size files_metadata of
                Some largest_file \<Rightarrow> (Inr (True, Some (path largest_file)), st1)
              | None \<Rightarrow> (Inr (False, None), st1)))"

subsection \<open>Models\<close>

text \<open>
  \<open>shutil.move\<close> of the downloaded file out of the temporary directory: into the
  destination when that is a directory (refusing to replace an entry there), onto the
  destination path otherwise. The temporary directory is created for the download and
  removed after it, so it is not part of the file tree of the model; the downloaded
  bytes travel with the call. The \<open>try\<close> of \<open>download_from_huggingface\<close> raises
  again whatever it catches, so an error leaves the function as it arose.
\<close>

definition shutil_move :: "node \<Rightarrow> string \<Rightarrow> string \<Rightarrow> string \<Rightarrow> os_error + node" where
  "shutil_move root src content dst =
     (if os_path_isdir root dst then
        (let real_dst = os_path_join dst (os_path_basename src)
         in if os_path_exists root real_dst then Inl DestinationExists
            else open_write root real_dst content)
      else open_write root dst content)"

definition download_from_huggingface ::
  "env \<Rightarrow> string \<Rightarrow> string \<Rightarrow> string \<Rightarrow> world \<Rightarrow> (error + string) \<times> world" where
  "download_from_huggingface env repo_id filename local_dir0 =
     (let local_dir = expanduser env local_dir0;
          local_filename = replace_slash ''_'' repo_id @ ''.safetensors'';
          final_path = os_path_join local_dir local_filename
      in bind (makedirs local_dir) (\<lambda>_ st1.
           if os_path_exists (fs st1) final_path then (Inr final_path, st1)
           else
             (let temp_dir = mkdtemp env;
                  st2 = st1\<lparr>calls := calls st1 @ [HubDownload repo_id filename temp_dir]\<rparr>
              in case hf_hub_download env repo_id filename of
                   Inl e \<Rightarrow> (Inl (LibraryError e), st2)
                 | Inr content \<Rightarrow>
                     (case shutil_move (fs st2) (os_path_join temp_dir filename) content final_path of
                        Inl e \<Rightarrow> (Inl (OSError e), st2)
                      | Inr root' \<Rightarrow> (Inr final_path, st2\<lparr>fs := root'\<rparr>)))))"

text \<open>
  The loop of \<open>download_flux_unet\<close>: every entry that counts sets \<open>file_path\<close> and
  calls \<open>download_from_huggingface\<close>, whose result becomes \<open>local_path\<close>. The two
  variables are assigned together, so the loop carries them as one optional pair.
\<close>

fun flux_loop ::
  "env \<Rightarrow> string \<Rightarrow> string \<Rightarrow> repo_entry list \<Rightarrow> (string \<times> string) option \<Rightarrow> world \<Rightarrow>
   (error + (string \<times> string) option) \<times> world" where
  "flux_loop env repo_id output_dir [] acc st = (Inr acc, st)"
| "flux_loop env repo_id output_dir (file # files) acc st =
     (if qualifies (10 * 1024 * 1024 * 1024) file then
        (case download_from_huggingface env repo_id (path file) output_dir st of
           (Inl e, st') \<Rightarrow> (Inl e, st')
         | (Inr local_path, st') \<Rightarrow>
             flux_loop env repo_id output_dir files (Some (path file, local_path)) st')
      else flux_loop env repo_id output_dir files acc st)"

definition download_flux_unet :: "env \<Rightarrow> string \<Rightarrow> string \<Rightarrow> world \<Rightarrow> (error + string) \<times> world" where
  "download_flux_unet env repo_id output_dir st =
     (let st1 = st\<lparr>calls := calls st @ [ListRepoTree repo_id]\<rparr>
      in case list_repo_tree env repo_id of
           Inl e \<Rightarrow> (Inl (LibraryError e), st1)
         | Inr files_metadata \<Rightarrow>
             (case flux_loop env repo_id output_dir files_metadata None st1 of
                (Inl e, st2) \<Rightarrow> (Inl e, st2)
              | (Inr None, st2) \<Rightarrow> (Inl (NoValidFile repo_id), st2)
              | (Inr (Some (file_path, local_path)), st2) \<Rightarrow>
                  if file_path = [] then (Inl (NoValidFile repo_id), st2)
                  else (Inr local_path, st2)))"

definition download_base_model :: "env \<Rightarrow> string \<Rightarrow> string \<Rightarrow> world \<Rightarrow> (error + string) \<times> world" where
  "download_base_model env repo_id save_root st =
     (let model_name = replace_slash ''--'' repo_id;
          save_path = os_path_join save_root model_name
      in if os_path_exists (fs st) save_path then (Inr save_path, st)
         else
           bind (is_safetensors_available env repo_id) (\<lambda>(has_safetensors, safetensors_path).
             case safetensors_path of
               Some sp \<Rightarrow>
                 if has_safetensors \<and> sp \<noteq> [] then download_from_huggingface env repo_id sp save_path
                 else bind (snapshot env repo_id RModel save_path None) (\<lambda>_ st2. (Inr save_path, st2))
             | None \<Rightarrow>
                 bind (snapshot env repo_id RModel save_path None) (\<lambda>_ st2. (Inr save_path, st2))) st)"

definition download_axolotl_base_model ::
  "env \<Rightarrow> string \<Rightarrow> string \<Rightarrow> world \<Rightarrow> (error + string) \<times> world" where
  "download_axolotl_base_model env repo_id save_dir st =
     (let model_dir = os_path_join save_dir (replace_slash ''--'' repo_id)
      in if os_path_exists (fs st) model_dir then (Inr model_dir, st)
         else bind (snapshot env repo_id RModel model_dir None) (\<lambda>_ st2. (Inr model_dir, st2)) st)"

subsection \<open>The command line\<close>

text \<open>
  \<open>main\<close>: the parsed arguments (the parser accepts four task types and any string,
  or nothing, as the file format), the two cache directories, and the branch on the
  task type. The result is the pair of paths printed at the end.
\<close>

record args =
  arg_task_id :: string
  arg_model :: string
  arg_task_type :: string
  arg_dataset :: string
  arg_file_format :: "string option"

definition task_type_choices :: "string list" where
  "task_type_choices = [''ImageTask'', ''InstructTextTask'', ''DpoTask'', ''GrpoTask'']"

definition main :: "env \<Rightarrow> args \<Rightarrow> world \<Rightarrow> (error + string \<times> string) \<times> world" where
  "main env a =
     (let dataset_dir = ''/cache/datasets''; model_dir = ''/cache/models''
      in if arg_task_type a \<notin> set task_type_choices then (\<lambda>st. (Inl ArgumentError, st))
         else
           bind (makedirs dataset_dir) (\<lambda>_.
           bind (makedirs model_dir) (\<lambda>_.
             if arg_task_type a = ''ImageTask'' then
               bind (download_image_dataset env (arg_dataset a) (arg_task_id a) dataset_dir) (\<lambda>dataset_zip_path.
               bind (download_base_model env (arg_model a) model_dir) (\<lambda>model_path.
               bind (clip_tokenizer env ''openai/clip-vit-large-patch14'' ''/cache/hf_cache'') (\<lambda>_.
               bind (clip_tokenizer env ''laion/CLIP-ViT-bigG-14-laion2B-39B-b160k'' ''/cache/hf_cache'') (\<lambda>_.
               bind (snapshot env ''google/t5-v1_1-xxl'' RModel ''/cache/hf_cache/google--t5-v1_1-xxl''
                       (Some [''tokenizer_config.json'', ''spiece.model'',
                              ''special_tokens_map.json'', ''tokenizer.json'']))
                 (\<lambda>_ st. (Inr (model_path, dataset_dir), st))))))
             else
               bind (download_text_dataset env (arg_task_id a) (arg_dataset a) (arg_file_format a) dataset_dir)
                 (\<lambda>(dataset_path, _).
               bind (download_axolotl_base_model env (arg_model a) model_dir)
                 (\<lambda>model_path st. (Inr (model_path, dataset_dir), st))))))"

section \<open>Notions used in the statements\<close>

text \<open>The size of an entry that has one (a qualifying entry always has).\<close>

definition the_size :: "repo_entry \<Rightarrow> int" where
  "the_size file = (case has_size file of Some s \<Rightarrow> s | None \<Rightarrow> 0)"

definition GiB :: int where
  "GiB = 1024 * 1024 * 1024"

section \<open>Example worlds\<close>

text \<open>
  A world for the worked examples: every request succeeds, a snapshot creates its
  target directory, and the repository listing is the one given.
\<close>

definition example_env :: "repo_entry list \<Rightarrow> env" where
  "example_env files =
     \<lparr>urlparse_path = (\<lambda>_. ''/data.json''),
      http_get = (\<lambda>_. Inr (200, ''{}'')),
      list_repo_tree = (\<lambda>_. Inr files),
      hf_hub_download = (\<lambda>_ _. Inr ''weights''),
      snapshot_download = (\<lambda>_ _ d _ root. (Inr (), case mkdirs root (split_path d) of Inr r \<Rightarrow> r | Inl _ \<Rightarrow> root)),
      clip_from_pretrained = (\<lambda>_ _ root. (Inr (), root)),
      expand_tilde = (\<lambda>p. p),
      mkdtemp = ''/tmp/tmpdl''\<rparr>"

text \<open>
  A file tree with the directories \<open>/tmp\<close>, \<open>/cache/datasets\<close> and
  \<open>/cache/models\<close>, all empty, and the state that starts from it.
\<close>

definition ex_root :: node where
  "ex_root =
     Dir ((\<lambda>_. None)
       (''tmp'' \<mapsto> Dir (\<lambda>_. None),
        ''cache'' \<mapsto> Dir ((\<lambda>_. None)
          (''datasets'' \<mapsto> Dir (\<lambda>_. None), ''models'' \<mapsto> Dir (\<lambda>_. None)))))"

definition ex_world :: world where
  "ex_world = \<lparr>fs = ex_root, calls = []\<rparr>"

definition ex_files :: "repo_entry list" where
 "ex_files = [RepoFolder ''unet'', RepoFile ''a.safetensors'' (Some (7 * GiB)),
               RepoFile ''b.safetensors'' (Some (8 * GiB)), RepoFile ''c.safetensors'' (Some (8 * GiB)),
               RepoFile ''d.bin'' (Some (9 * GiB)), RepoFile ''e.safetensors'' None]"

text \<open>
  A file tree in which the cache entries of the examples exist, and the state that starts from it.
\<close>

definition ex_root_cached :: node where
  "ex_root_cached =
     Dir ((\<lambda>_. None)
       (''tmp'' \<mapsto> Dir (\<lambda>_. None),
        ''cache'' \<mapsto> Dir ((\<lambda>_. None)
          (''datasets'' \<mapsto> Dir ((\<lambda>_. None)
             (''t1_train_data.json'' \<mapsto> File ''{}'', ''org--data'' \<mapsto> Dir (\<lambda>_. None))),
           ''models'' \<mapsto> Dir ((\<lambda>_. None)(''org--model'' \<mapsto> Dir (\<lambda>_. None)))))))"

definition ex_world_cached :: world where
  "ex_world_cached = \<lparr>fs = ex_root_cached, calls = []\<rparr>"

text \<open>
  Two listings: one with a weights file of 12 GiB, one whose files are all below the check size.
\<close>

definition ex_weights :: "repo_entry list" where
  "ex_weights = [RepoFile ''config.json'' (Some 1000), RepoFile ''model.safetensors'' (Some (12 * GiB))]"

definition ex_small :: "repo_entry list" where
  "ex_small = [RepoFile ''config.json'' (Some 1000), RepoFile ''model.safetensors'' (Some (5 * GiB))]"

text \<open>
  A listing with two weights files above 10 GiB, the smaller one first.
\<close>

definition ex_flux :: "repo_entry list" where
  "ex_flux = [RepoFile ''a.safetensors'' (Some (11 * GiB)), RepoFile ''b.safetensors'' (Some (12 * GiB))]"

text \<open>
  The command line of an instruct-text task with an S3 dataset.
\<close>

definition ex_args :: args where
  "ex_args =
     \<lparr>arg_task_id = ''t1'', arg_model = ''org/model'', arg_task_type = ''InstructTextTask'',
      arg_dataset = ''https://ex.com/data.json'', arg_file_format = Some ''s3''\<rparr>"

text \<open>
  The command line of an image task.
\<close>

definition ex_args_image :: args where
  "ex_args_image =
     \<lparr>arg_task_id = ''t1'', arg_model = ''org/model'', arg_task_type = ''ImageTask'',
      arg_dataset = ''https://ex.com/data.zip'', arg_file_format = None\<rparr>"

section \<open>Paths: the components of a joined name\<close>

lemma comps_not_Nil: "comps s \<noteq> []"
  by (induction s) (auto split: list.splits)

lemma comps_slash: "comps (a @ CHR ''/'' # n) = comps a @ comps n"
  using comps_not_Nil by (induction a) (auto split: list.splits)

lemma comps_no_slash: "CHR ''/'' \<notin> set n \<Longrightarrow> comps n = [n]"
  by (induction n) (auto split: list.splits)

lemma split_path_slash: "split_path (a @ CHR ''/'' # n) = split_path a @ split_path n"
  by (simp add: split_path_def comps_slash)

lemma split_path_no_slash: "CHR ''/'' \<notin> set n \<Longrightarrow> n \<noteq> [] \<Longrightarrow> split_path n = [n]"
  by (simp add: split_path_def comps_no_slash)

lemma split_path_Nil: "split_path [] = []"
  by (simp add: split_path_def)

lemma endswith_slashE:
  assumes "endswith_slash a"
  obtains a' where "a = a' @ ''/''"
proof -
  from assms have "a = butlast a @ ''/''"
    using append_butlast_last_id[of a] by (simp add: endswith_slash_def)
  then show thesis by (rule that)
qed

lemma split_path_join:
  assumes "CHR ''/'' \<notin> set n" "n \<noteq> []"
  shows "split_path (os_path_join a n) = split_path a @ [n]"
proof -
  have ns: "\<not> startswith_slash n"
    using assms by (cases n) (auto simp: startswith_slash_def)
  show ?thesis
  proof (cases "a = [] \<or> endswith_slash a")
    case False
    then show ?thesis using assms ns
      by (simp add: os_path_join_def split_path_slash split_path_no_slash)
  next
    case True
    then show ?thesis
    proof
      assume "a = []"
      then show ?thesis using assms ns
        by (simp add: os_path_join_def split_path_no_slash split_path_Nil)
    next
      assume "endswith_slash a"
      then obtain a' where a: "a = a' @ ''/''" by (rule endswith_slashE)
      have "os_path_join a n = a' @ CHR ''/'' # n"
        using ns \<open>endswith_slash a\<close> by (simp add: os_path_join_def a)
      moreover have "split_path a = split_path a'"
        by (simp add: a split_path_slash split_path_Nil)
      ultimately show ?thesis
        using assms by (simp add: split_path_slash split_path_no_slash)
    qed
  qed
qed

lemma replace_slash_no_slash:
  "CHR ''/'' \<notin> set rep \<Longrightarrow> CHR ''/'' \<notin> set (replace_slash rep s)"
  by (induction s) (auto simp: replace_slash_def)

lemma os_path_join_abs:
  "startswith_slash a \<Longrightarrow> startswith_slash (os_path_join a n)"
  by (cases a) (auto simp: os_path_join_def startswith_slash_def)

lemma startswith_slash_not_Nil: "startswith_slash a \<Longrightarrow> a \<noteq> []"
  by (auto simp: startswith_slash_def)

lemma expanduser_abs: "startswith_slash p \<Longrightarrow> expanduser env p = p"
  by (cases p) (auto simp: expanduser_def startswith_slash_def)

lemma os_path_join_last:
  "n \<noteq> [] \<Longrightarrow> \<not> startswith_slash n \<Longrightarrow> last (os_path_join a n) = last n"
  by (auto simp: os_path_join_def)

lemma os_path_join_not_Nil: "n \<noteq> [] \<Longrightarrow> os_path_join a n \<noteq> []"
  by (auto simp: os_path_join_def)

lemma name_in_dir:
  assumes "CHR ''/'' \<notin> set n" "n \<noteq> []"
  shows "os_path_join d n \<noteq> []" "\<not> endswith_slash (os_path_join d n)"
        "split_path (os_path_join d n) = split_path d @ [n]"
proof -
  have ns: "\<not> startswith_slash n"
    using assms by (cases n) (auto simp: startswith_slash_def)
  show "os_path_join d n \<noteq> []" using assms by (simp add: os_path_join_not_Nil)
  have "last (os_path_join d n) = last n" using assms ns by (simp add: os_path_join_last)
  moreover have "last n \<in> set n" using assms by simp
  ultimately show "\<not> endswith_slash (os_path_join d n)"
    using assms(1) by (auto simp: endswith_slash_def)
  show "split_path (os_path_join d n) = split_path d @ [n]"
    using assms by (rule split_path_join)
qed

section \<open>The file tree: directories and files\<close>

lemma lookup_append:
  "lookup n (p @ q) = (case lookup n p of None \<Rightarrow> None | Some n' \<Rightarrow> lookup n' q)"
  by (induction n p rule: lookup.induct) (auto split: option.splits)

lemma lookup_File: "lookup (File c) p = (if p = [] then Some (File c) else None)"
  by (cases p) auto

lemma mkdirs_existing:
  "lookup n p = Some (Dir d) \<Longrightarrow> mkdirs n p = Inr n"
proof (induction n p rule: mkdirs.induct)
  case (4 m x xs)
  then show ?case by (auto split: option.splits)
qed auto

lemma mkdirs_lookup:
  "mkdirs n p = Inr n' \<Longrightarrow> \<exists>d. lookup n' p = Some (Dir d)"
proof (induction n p arbitrary: n' rule: mkdirs.induct)
  case (4 m x xs)
  then show ?case by (auto split: option.splits sum.splits)
qed auto

lemma mkdirs_idem: "mkdirs n p = Inr n' \<Longrightarrow> mkdirs n' p = Inr n'"
  using mkdirs_lookup mkdirs_existing by blast

lemma mkdirs_before:
  "mkdirs n p = Inr n' \<Longrightarrow> lookup n p = None \<or> (\<exists>d. lookup n p = Some (Dir d))"
proof (induction n p arbitrary: n' rule: mkdirs.induct)
  case (4 m x xs)
  then show ?case by (cases "m x") (auto split: sum.splits)
qed auto

lemma mkdirs_fresh:
  "lookup n p = None \<Longrightarrow> mkdirs n p = Inr n' \<Longrightarrow> q \<noteq> [] \<Longrightarrow> lookup n' (p @ q) = None"
proof (induction n p arbitrary: n' rule: mkdirs.induct)
  case (4 m x xs)
  show ?case
  proof (cases "m x")
    case None
    show ?thesis
    proof (cases xs)
      case Nil
      with None 4(3,4) show ?thesis by (cases q) auto
    next
      case (Cons y ys)
      with None 4 show ?thesis by (auto split: sum.splits)
    qed
  next
    case (Some a)
    with 4 show ?thesis by (auto split: sum.splits)
  qed
qed auto

lemma mkdirs_child:
  "lookup n p = Some (Dir m) \<Longrightarrow> m x = None \<Longrightarrow> \<exists>n'. mkdirs n (p @ [x]) = Inr n'"
proof (induction n p rule: lookup.induct)
  case (3 m' y ys)
  then obtain n1 where n1: "m' y = Some n1" "lookup n1 ys = Some (Dir m)"
    by (auto split: option.splits)
  from 3(1)[OF n1 3(3)] obtain n' where "mkdirs n1 (ys @ [x]) = Inr n'" by blast
  with n1 show ?case by simp
qed auto

lemma write_file_lookup:
  "write_file n p c = Inr n' \<Longrightarrow> lookup n' p = Some (File c)"
proof (induction n p c arbitrary: n' rule: write_file.induct)
  case (3 m x c)
  then show ?case by (auto split: option.splits node.splits)
next
  case (4 m x y ys c)
  then show ?case by (auto split: option.splits sum.splits)
qed auto

lemma write_file_child:
  "lookup n p = Some (Dir d) \<Longrightarrow> (\<forall>d'. d x \<noteq> Some (Dir d')) \<Longrightarrow>
   \<exists>n'. write_file n (p @ [x]) c = Inr n'"
proof (induction n p arbitrary: d rule: lookup.induct)
  case (1 n)
  then show ?case by (auto split: option.splits node.splits)
next
  case (2 c' y ys)
  then show ?case by simp
next
  case (3 m y ys)
  then obtain n1 where n1: "m y = Some n1" "lookup n1 ys = Some (Dir d)"
    by (auto split: option.splits)
  from 3(1)[OF n1 3(3)] obtain n' where "write_file n1 (ys @ [x]) c = Inr n'" by blast
  with n1 show ?case by (cases "ys @ [x]") auto
qed

lemma write_file_keeps_dir:
  "write_file n q c = Inr n' \<Longrightarrow> lookup n p = Some (Dir d) \<Longrightarrow> \<exists>d'. lookup n' p = Some (Dir d')"
proof (induction n q c arbitrary: n' p d rule: write_file.induct)
  case (3 m x c)
  then show ?case
    by (cases p) (auto simp: lookup_File split: option.splits node.splits if_splits)
next
  case (4 m x y ys c)
  then show ?case
    by (cases p) (auto split: option.splits sum.splits if_splits)
qed auto

lemma write_file_keeps_absent:
  "write_file n q c = Inr n' \<Longrightarrow> lookup n p = None \<Longrightarrow> p \<noteq> q \<Longrightarrow> lookup n' p = None"
proof (induction n q c arbitrary: n' p rule: write_file.induct)
  case (3 m x c)
  then show ?case
    by (cases p) (auto simp: lookup_File split: option.splits node.splits if_splits)
next
  case (4 m x y ys c)
  then show ?case
    by (cases p) (auto split: option.splits sum.splits if_splits)
qed auto

subsection \<open>The same facts for path strings\<close>

lemma isdir_exists: "os_path_isdir root p \<Longrightarrow> os_path_exists root p"
  by (auto simp: os_path_isdir_def os_path_exists_def split: option.splits node.splits)

lemma os_makedirs_isdir: "os_path_isdir root d \<Longrightarrow> os_makedirs root d = Inr root"
  by (auto simp: os_path_isdir_def os_makedirs_def mkdirs_existing split: option.splits node.splits)

lemma makedirs_isdir: "os_path_isdir (fs st) d \<Longrightarrow> makedirs d st = (Inr (), st)"
  by (simp add: makedirs_def os_makedirs_isdir)

lemma os_makedirs_isdir_after:
  "os_makedirs root d = Inr root' \<Longrightarrow> os_path_isdir root' d"
  by (auto simp: os_makedirs_def os_path_isdir_def split: if_splits dest: mkdirs_lookup)

lemma os_makedirs_idem:
  "os_makedirs root d = Inr root' \<Longrightarrow> os_makedirs root' d = Inr root'"
  by (auto simp: os_makedirs_def split: if_splits dest: mkdirs_idem)

lemma open_write_read:
  "open_write root p c = Inr root' \<Longrightarrow> read_file root' p = Inr c"
  by (auto simp: open_write_def read_file_def split: if_splits dest: write_file_lookup)

lemma open_write_keeps_isdir:
  "open_write root p c = Inr root' \<Longrightarrow> os_path_isdir root d \<Longrightarrow> os_path_isdir root' d"
  by (auto simp: open_write_def os_path_isdir_def split: if_splits option.splits node.splits
      dest: write_file_keeps_dir)

lemma open_write_exists:
  "open_write root p c = Inr root' \<Longrightarrow> os_path_exists root' p"
  by (auto simp: open_write_def os_path_exists_def split: if_splits dest: write_file_lookup)

lemma open_write_keeps_absent:
  "open_write root q c = Inr root' \<Longrightarrow> lookup root (split_path p) = None \<Longrightarrow>
   split_path p \<noteq> split_path q \<Longrightarrow> lookup root' (split_path p) = None"
  by (auto simp: open_write_def split: if_splits dest: write_file_keeps_absent)

lemma open_write_child:
  assumes "os_path_isdir root d" "CHR ''/'' \<notin> set n" "n \<noteq> []"
    "lookup root (split_path (os_path_join d n)) = None"
  shows "\<exists>root'. open_write root (os_path_join d n) c = Inr root'"
proof -
  from assms(1) obtain m where m: "lookup root (split_path d) = Some (Dir m)"
    by (auto simp: os_path_isdir_def split: option.splits node.splits)
  have "m n = None"
    using assms(4) m name_in_dir(3)[OF assms(2,3)] by (simp add: lookup_append split: option.splits)
  then have "\<exists>root'. write_file root (split_path d @ [n]) c = Inr root'"
    using m by (intro write_file_child) auto
  then show ?thesis
    using name_in_dir[OF assms(2,3), of d] by (simp add: open_write_def)
qed

lemma absent_name_in_dir:
  assumes "CHR ''/'' \<notin> set n" "n \<noteq> []" "\<not> os_path_exists root (os_path_join d n)"
  shows "lookup root (split_path (os_path_join d n)) = None"
  using assms(3) name_in_dir(1,2)[OF assms(1,2), of d]
  by (auto simp: os_path_exists_def split: option.splits node.splits)

lemma exists_in_dir_isdir:
  assumes "CHR ''/'' \<notin> set n" "n \<noteq> []" "d \<noteq> []" "os_path_exists root (os_path_join d n)"
  shows "os_path_isdir root d"
proof -
  have "lookup root (split_path d @ [n]) \<noteq> None"
    using assms(4) name_in_dir(3)[OF assms(1,2), of d]
    by (auto simp: os_path_exists_def split: option.splits)
  then obtain x where "lookup root (split_path d) = Some x" "lookup x [n] \<noteq> None"
    by (auto simp: lookup_append split: option.splits)
  then show ?thesis using assms(3)
    by (cases x) (auto simp: os_path_isdir_def)
qed

lemma fresh_dir_empty:
  assumes "CHR ''/'' \<notin> set n" "n \<noteq> []" "d \<noteq> []"
    "\<not> os_path_exists root d" "os_makedirs root d = Inr root1"
  shows "lookup root1 (split_path (os_path_join d n)) = None"
proof -
  have mk: "mkdirs root (split_path d) = Inr root1"
    using assms(3,5) by (simp add: os_makedirs_def)
  from mkdirs_before[OF mk] assms(3,4) have "lookup root (split_path d) = None"
    by (auto simp: os_path_exists_def)
  from mkdirs_fresh[OF this mk, of "[n]"] show ?thesis
    by (simp add: name_in_dir(3)[OF assms(1,2)])
qed

lemma os_makedirs_child:
  assumes "os_path_isdir root d" "CHR ''/'' \<notin> set n" "n \<noteq> []"
    "\<not> os_path_exists root (os_path_join d n)"
  shows "\<exists>root'. os_makedirs root (os_path_join d n) = Inr root'"
proof -
  from assms(1) obtain m where m: "lookup root (split_path d) = Some (Dir m)"
    by (auto simp: os_path_isdir_def split: option.splits node.splits)
  have "lookup root (split_path d @ [n]) = None"
    using absent_name_in_dir[OF assms(2,3,4)] name_in_dir(3)[OF assms(2,3), of d] by simp
  then have "m n = None"
    using m by (simp add: lookup_append split: option.splits)
  from mkdirs_child[OF m this] show ?thesis
    using name_in_dir[OF assms(2,3), of d] by (simp add: os_makedirs_def)
qed

subsection \<open>The example worlds\<close>

lemmas path_eval = os_path_join_def startswith_slash_def endswith_slash_def split_path_def
  replace_slash_def os_path_basename_def

lemma ex_world_calls: "calls ex_world = []"
  by (simp add: ex_world_def)

lemma ex_root_dirs:
  "os_path_isdir ex_root ''/tmp''"
  "os_path_isdir ex_root ''/cache/datasets''"
  "os_path_isdir ex_root ''/cache/models''"
  by (simp_all add: ex_root_def os_path_isdir_def split_path_def)

lemma ex_model_absent: "\<not> os_path_exists (fs ex_world) ''/cache/models/org--model''"
  by (simp add: ex_world_def ex_root_def os_path_exists_def split_path_def)

lemma ex_mk_model: "\<exists>root1. os_makedirs (fs ex_world) ''/cache/models/org--model'' = Inr root1"
  by (simp add: ex_world_def ex_root_def os_makedirs_def split_path_def)

lemma ex_model_paths:
  "os_path_join ''/cache/models'' (replace_slash ''--'' ''org/model'') = ''/cache/models/org--model''"
  "os_path_join ''/cache/models/org--model'' (replace_slash ''_'' ''org/model'' @ ''.safetensors'') =
     ''/cache/models/org--model/org_model.safetensors''"
  by (simp_all add: os_path_join_def startswith_slash_def endswith_slash_def replace_slash_def)

lemma ex_flux_paths:
  "os_path_join ''/cache/models'' (replace_slash ''_'' ''org/flux'' @ ''.safetensors'') =
     ''/cache/models/org_flux.safetensors''"
  by (simp add: os_path_join_def startswith_slash_def endswith_slash_def replace_slash_def)

lemma ex_weights_sel: "largest_over total_check_size ex_weights = Some (RepoFile ''model.safetensors'' (Some (12 * GiB)))"
  by (simp add: ex_weights_def largest_over_def largest_step_def endswith_def total_check_size_def GiB_def)

lemma ex_small_sel: "largest_over total_check_size ex_small = None"
  by (simp add: ex_small_def largest_over_def largest_step_def endswith_def total_check_size_def GiB_def)

lemma ex_args_sel:
  "arg_task_id ex_args = ''t1''" "arg_model ex_args = ''org/model''"
  "arg_task_type ex_args = ''InstructTextTask''"
  "arg_dataset ex_args = ''https://ex.com/data.json''" "arg_file_format ex_args = Some ''s3''"
  by (simp_all add: ex_args_def)

lemma ex_snapshot_ok:
  "\<exists>root'. snapshot_download (example_env files) repo_id rt d allow root = (Inr (), root')"
  by (simp add: example_env_def)

lemma ex_clip:
  "clip_tokenizer (example_env files) name cache_dir st =
     (Inr (), \<lparr>fs = fs st, calls = calls st @ [ClipFromPretrained name cache_dir]\<rparr>)"
  by (cases st) (simp add: clip_tokenizer_def example_env_def Let_def)

lemma ex_snapshot_run:
  "\<exists>root'. snapshot (example_env files) repo_id rt d allow st =
     (Inr (), \<lparr>fs = root', calls = calls st @ [SnapshotDownload repo_id rt d allow]\<rparr>)"
  by (cases st) (simp add: snapshot_def example_env_def Let_def)

lemma ex_args_image_sel:
  "arg_task_id ex_args_image = ''t1''" "arg_model ex_args_image = ''org/model''"
  "arg_task_type ex_args_image = ''ImageTask''"
  "arg_dataset ex_args_image = ''https://ex.com/data.zip''"
  by (simp_all add: ex_args_image_def)

section \<open>The file selector\<close>

lemma largest_step_cases:
  "largest_step T acc x =
     (if qualifies T x then
        (case acc of None \<Rightarrow> Some x
         | Some l \<Rightarrow> (case has_size l of Some ls \<Rightarrow> if the_size x > ls then Some x else acc | None \<Rightarrow> acc))
      else acc)"
  by (auto simp: largest_step_def qualifies_def the_size_def split: option.splits)

lemma largest_over_snoc:
  "largest_over T (files @ [x]) = largest_step T (largest_over T files) x"
  by (simp add: largest_over_def)

lemma largest_over_char:
  "(case largest_over T files of
      None \<Rightarrow> \<forall>f \<in> set files. \<not> qualifies T f
    | Some f \<Rightarrow>
        \<exists>i < length files. files ! i = f \<and> qualifies T f \<and>
          (\<forall>j < length files. qualifies T (files ! j) \<longrightarrow> the_size (files ! j) \<le> the_size f) \<and>
          (\<forall>j < i. qualifies T (files ! j) \<longrightarrow> the_size (files ! j) < the_size f))"
proof (induction files rule: rev_induct)
  case Nil
  show ?case by (simp add: largest_over_def)
next
  case (snoc x files)
  show ?case
  proof (cases "qualifies T x")
    case False
    show ?thesis
    proof (cases "largest_over T files")
      case None
      with snoc False show ?thesis
        by (simp add: largest_over_snoc largest_step_cases)
    next
      case (Some l)
      with snoc obtain i where i: "i < length files" "files ! i = l" "qualifies T l"
        "\<forall>j < length files. qualifies T (files ! j) \<longrightarrow> the_size (files ! j) \<le> the_size l"
        "\<forall>j < i. qualifies T (files ! j) \<longrightarrow> the_size (files ! j) < the_size l"
        by auto
      have "\<forall>j < length (files @ [x]). qualifies T ((files @ [x]) ! j) \<longrightarrow> the_size ((files @ [x]) ! j) \<le> the_size l"
        using i(4) False by (auto simp: nth_append less_Suc_eq)
      moreover have "\<forall>j < i. qualifies T ((files @ [x]) ! j) \<longrightarrow> the_size ((files @ [x]) ! j) < the_size l"
        using i(1,5) by (auto simp: nth_append)
      moreover have "(files @ [x]) ! i = l" "i < length (files @ [x])"
        using i(1,2) by (auto simp: nth_append)
      ultimately show ?thesis
        using Some False i(3) by (auto simp: largest_over_snoc largest_step_cases)
    qed
  next
    case True
    have qs: "has_size x = Some (the_size x)"
      using True by (auto simp: qualifies_def the_size_def split: option.splits)
    show ?thesis
    proof (cases "largest_over T files")
      case None
      with snoc have nq: "\<forall>f \<in> set files. \<not> qualifies T f" by simp
      have "\<forall>j < length files. qualifies T ((files @ [x]) ! j) \<longrightarrow> the_size ((files @ [x]) ! j) < the_size x"
        using nq by (auto simp: nth_append)
      moreover have "\<forall>j < length (files @ [x]). qualifies T ((files @ [x]) ! j) \<longrightarrow> the_size ((files @ [x]) ! j) \<le> the_size x"
        using nq by (auto simp: nth_append less_Suc_eq)
      ultimately show ?thesis
        using None True
        by (auto simp: largest_over_snoc largest_step_cases intro!: exI[of _ "length files"])
    next
      case (Some l)
      with snoc obtain i where i: "i < length files" "files ! i = l" "qualifies T l"
        "\<forall>j < length files. qualifies T (files ! j) \<longrightarrow> the_size (files ! j) \<le> the_size l"
        "\<forall>j < i. qualifies T (files ! j) \<longrightarrow> the_size (files ! j) < the_size l"
        by auto
      have ls: "has_size l = Some (the_size l)"
        using i(3) by (auto simp: qualifies_def the_size_def split: option.splits)
      show ?thesis
      proof (cases "the_size x > the_size l")
        case gt: True
        have res: "largest_over T (files @ [x]) = Some x"
          using Some True ls gt by (simp add: largest_over_snoc largest_step_cases)
        have "\<forall>j < length files. qualifies T ((files @ [x]) ! j) \<longrightarrow> the_size ((files @ [x]) ! j) < the_size x"
          using i(4) gt by (auto simp: nth_append)
        moreover have "\<forall>j < length (files @ [x]). qualifies T ((files @ [x]) ! j) \<longrightarrow> the_size ((files @ [x]) ! j) \<le> the_size x"
          using i(4) gt by (auto simp: nth_append less_Suc_eq)
        ultimately show ?thesis
          using res True by (auto intro!: exI[of _ "length files"])
      next
        case le: False
        have res: "largest_over T (files @ [x]) = Some l"
          using Some True ls le by (simp add: largest_over_snoc largest_step_cases)
        have "\<forall>j < length (files @ [x]). qualifies T ((files @ [x]) ! j) \<longrightarrow> the_size ((files @ [x]) ! j) \<le> the_size l"
          using i(4) le by (auto simp: nth_append less_Suc_eq)
        moreover have "\<forall>j < i. qualifies T ((files @ [x]) ! j) \<longrightarrow> the_size ((files @ [x]) ! j) < the_size l"
          using i(1,5) by (auto simp: nth_append)
        moreover have "(files @ [x]) ! i = l" "i < length (files @ [x])"
          using i(1,2) by (auto simp: nth_append)
        ultimately show ?thesis
          using res i(3) by auto
      qed
    qed
  qed
qed

lemma largest_over_None_iff:
  "(largest_over T files = None) \<longleftrightarrow> (\<forall>f \<in> set files. \<not> qualifies T f)"
proof
  assume "largest_over T files = None"
  with largest_over_char[where T=T and files=files] show "\<forall>f \<in> set files. \<not> qualifies T f"
    by simp
next
  assume nq: "\<forall>f \<in> set files. \<not> qualifies T f"
  show "largest_over T files = None"
  proof (cases "largest_over T files")
    case (Some l)
    with largest_over_char[where T=T and files=files] nq show ?thesis
      using nth_mem by fastforce
  qed simp
qed

lemma largest_over_qualifies: "largest_over T files = Some f \<Longrightarrow> qualifies T f"
  using largest_over_char[where T=T and files=files] by auto

lemma qualifies_path_not_Nil: "qualifies T f \<Longrightarrow> path f \<noteq> []"
  by (auto simp: qualifies_def endswith_def split: option.splits)

text \<open>
  C3. For every repository listing, the selector of \<open>is_safetensors_available\<close>
  answers \<open>(False, None)\<close> exactly when no entry has the \<open>.safetensors\<close> suffix and
  a size above the check size; otherwise it answers with the path of a qualifying
  entry whose size is maximal among the qualifying entries, and every qualifying entry
  listed before it is strictly smaller: among entries of equal maximal size the first
  in listing order is returned.
\<close>

theorem selector_first_largest:
  assumes "list_repo_tree env repo_id = Inr files"
  shows "((\<forall>f \<in> set files. \<not> qualifies total_check_size f) \<and>
          fst (is_safetensors_available env repo_id st) = Inr (False, None)) \<or>
         (\<exists>i < length files.
            qualifies total_check_size (files ! i) \<and>
            (\<forall>j < length files. qualifies total_check_size (files ! j) \<longrightarrow>
               the_size (files ! j) \<le> the_size (files ! i)) \<and>
            (\<forall>j < i. qualifies total_check_size (files ! j) \<longrightarrow>
               the_size (files ! j) < the_size (files ! i)) \<and>
            fst (is_safetensors_available env repo_id st) = Inr (True, Some (path (files ! i))))"
proof (cases "largest_over total_check_size files")
  case None
  with largest_over_char[where T=total_check_size and files=files] assms show ?thesis
    by (simp add: is_safetensors_available_def Let_def)
next
  case (Some l)
  with largest_over_char[where T=total_check_size and files=files] obtain i where
    "i < length files" "files ! i = l" "qualifies total_check_size l"
    "\<forall>j < length files. qualifies total_check_size (files ! j) \<longrightarrow> the_size (files ! j) \<le> the_size l"
    "\<forall>j < i. qualifies total_check_size (files ! j) \<longrightarrow> the_size (files ! j) < the_size l"
    by auto
  moreover have "fst (is_safetensors_available env repo_id st) = Inr (True, Some (path l))"
    using Some assms by (simp add: is_safetensors_available_def Let_def)
  ultimately show ?thesis by blast
qed

text \<open>
  A listing with a folder, a smaller file, two files of the same largest size, a larger
  file of another suffix and a file without a size: the first of the two is chosen.
\<close>

theorem selector_first_largest_witness:
  "list_repo_tree (example_env ex_files) ''org/model'' = Inr ex_files \<and>
   fst (is_safetensors_available (example_env ex_files) ''org/model'' ex_world) = Inr (True, Some ''b.safetensors'')"
  using selector_first_largest[of "example_env ex_files" "''org/model''" ex_files ex_world]
  by (simp add: is_safetensors_available_def example_env_def ex_files_def largest_over_def largest_step_def endswith_def total_check_size_def GiB_def)

section \<open>Transport\<close>

text \<open>
  C8. When the GET request is answered, \<open>download_s3_file\<close> raises the error that
  carries the HTTP status exactly when the status is not 200, and then nothing is
  written. On status 200 it writes the response body to the computed local file path
  and returns that path; if the file cannot be opened for writing, the error raised is
  the operating system's, not the one carrying the status.
\<close>

theorem transport_status:
  assumes "http_get env file_url = Inr (status, body)"
  shows "((\<exists>s. fst (download_s3_file env file_url save_path tmp_dir st) = Inl (DownloadFailed s))
            \<longleftrightarrow> status \<noteq> 200) \<and>
         (status \<noteq> 200 \<longrightarrow>
            download_s3_file env file_url save_path tmp_dir st =
              (Inl (DownloadFailed status), st\<lparr>calls := calls st @ [HttpGet file_url]\<rparr>)) \<and>
         (status = 200 \<longrightarrow>
            (case open_write (fs st) (local_file_path_of env (fs st) file_url save_path tmp_dir) body of
               Inl e \<Rightarrow>
                 download_s3_file env file_url save_path tmp_dir st =
                   (Inl (OSError e), st\<lparr>calls := calls st @ [HttpGet file_url]\<rparr>)
             | Inr root' \<Rightarrow>
                 download_s3_file env file_url save_path tmp_dir st =
                   (Inr (local_file_path_of env (fs st) file_url save_path tmp_dir),
                    \<lparr>fs = root', calls = calls st @ [HttpGet file_url]\<rparr>) \<and>
                 read_file root' (local_file_path_of env (fs st) file_url save_path tmp_dir) = Inr body))"
  using assms
  by (auto simp: download_s3_file_def Let_def open_write_read split: sum.splits)

text \<open>
  A URL answered with status 200: the body arrives at \<open>/tmp/data.json\<close>, the path returned.
\<close>

theorem transport_status_witness:
  "http_get (example_env []) ''https://ex.com/data.json'' = Inr (200, ''{}'') \<and>
   fst (download_s3_file (example_env []) ''https://ex.com/data.json'' None ''/tmp'' ex_world) =
     Inr ''/tmp/data.json'' \<and>
   calls (snd (download_s3_file (example_env []) ''https://ex.com/data.json'' None ''/tmp'' ex_world)) =
     [HttpGet ''https://ex.com/data.json''] \<and>
   read_file (fs (snd (download_s3_file (example_env []) ''https://ex.com/data.json'' None ''/tmp'' ex_world)))
     ''/tmp/data.json'' = Inr ''{}''"
proof -
  have g: "http_get (example_env []) ''https://ex.com/data.json'' = Inr (200, ''{}'')"
    by (simp add: example_env_def)
  have p: "local_file_path_of (example_env []) (fs ex_world) ''https://ex.com/data.json'' None ''/tmp'' =
      ''/tmp/data.json''"
    by (simp add: local_file_path_of_def example_env_def os_path_basename_def os_path_join_def
        startswith_slash_def endswith_slash_def)
  obtain root1 where w: "open_write (fs ex_world) ''/tmp/data.json'' ''{}'' = Inr root1"
    by (simp add: open_write_def endswith_slash_def split_path_def ex_world_def ex_root_def)
  show ?thesis
    using transport_status[OF g, of None "''/tmp''" ex_world] g w by (simp add: p ex_world_calls)
qed

section \<open>Datasets\<close>

lemma train_data_name:
  "CHR ''/'' \<notin> set task_id \<Longrightarrow> CHR ''/'' \<notin> set (task_id @ ''_train_data.json'')"
  "task_id @ ''_train_data.json'' \<noteq> []"
  by auto

text \<open>
  C2. For the formats \<open>csv\<close> and \<open>json\<close>, \<open>download_text_dataset\<close> makes no
  request to any remote service and never returns a path: once the dataset directory
  is in place, neither branch has bound \<open>input_data_path\<close> and the call ends in
  \<open>UnboundLocalError\<close>.
\<close>

theorem csv_json_raises:
  assumes "file_format = Some ''csv'' \<or> file_format = Some ''json''"
  shows "download_text_dataset env task_id dataset_url file_format dataset_dir st =
           (case os_makedirs (fs st) dataset_dir of
              Inl e \<Rightarrow> (Inl (OSError e), st)
            | Inr root1 \<Rightarrow> (Inl UnboundLocalError, st\<lparr>fs := root1\<rparr>))"
  using assms
  by (auto simp: download_text_dataset_def bind_def makedirs_def split: sum.splits)

text \<open>
  The call with format \<open>csv\<close> and a local file name, in the example world.
\<close>

theorem csv_json_raises_witness:
  "download_text_dataset (example_env []) ''t1'' ''/data/train.csv'' (Some ''csv'') ''/cache/datasets'' ex_world =
     (Inl UnboundLocalError, ex_world)"
proof -
  have "os_makedirs (fs ex_world) ''/cache/datasets'' = Inr (fs ex_world)"
    by (rule os_makedirs_isdir) (simp add: ex_world_def ex_root_dirs)
  then show ?thesis
    using csv_json_raises[of "Some ''csv''" "example_env []" "''t1''" "''/data/train.csv''"
        "''/cache/datasets''" ex_world]
    by simp
qed

lemma s3_dataset_first_run:
  assumes get: "http_get env dataset_url = Inr (200, body)"
    and dir: "os_path_isdir (fs st) dataset_dir"
    and name: "CHR ''/'' \<notin> set task_id"
    and absent: "\<not> os_path_exists (fs st) (os_path_join dataset_dir (task_id @ ''_train_data.json''))"
    and tmp: "open_write (fs st) (os_path_join ''/tmp'' (os_path_basename (urlparse_path env dataset_url))) body
                = Inr root1"
    and diff: "split_path (os_path_join ''/tmp'' (os_path_basename (urlparse_path env dataset_url))) \<noteq>
               split_path (os_path_join dataset_dir (task_id @ ''_train_data.json''))"
  shows "\<exists>root2.
           open_write root1 (os_path_join dataset_dir (task_id @ ''_train_data.json'')) body = Inr root2 \<and>
           download_text_dataset env task_id dataset_url (Some ''s3'') dataset_dir st =
             (Inr (os_path_join dataset_dir (task_id @ ''_train_data.json''), Some ''s3''),
              \<lparr>fs = root2, calls = calls st @ [HttpGet dataset_url]\<rparr>)"
proof -
  let ?cache = "os_path_join dataset_dir (task_id @ ''_train_data.json'')"
  let ?tmp = "os_path_join ''/tmp'' (os_path_basename (urlparse_path env dataset_url))"
  let ?st2 = "\<lparr>fs = root1, calls = calls st @ [HttpGet dataset_url]\<rparr>"
  note nm = train_data_name(1)[OF name] train_data_name(2)[of task_id]
  have s3: "download_s3_file env dataset_url None ''/tmp'' st = (Inr ?tmp, ?st2)"
    using get tmp by (simp add: download_s3_file_def local_file_path_of_def Let_def)
  have none0: "lookup (fs st) (split_path ?cache) = None"
    using absent_name_in_dir[OF nm absent] .
  have none1: "lookup root1 (split_path ?cache) = None"
    using open_write_keeps_absent[OF tmp none0] diff by simp
  have nodir1: "\<not> os_path_isdir root1 ?cache" and noex1: "\<not> os_path_exists root1 ?cache"
    using none1 by (simp_all add: os_path_isdir_def os_path_exists_def)
  have dir1: "os_path_isdir root1 dataset_dir"
    using open_write_keeps_isdir[OF tmp dir] .
  from open_write_child[OF dir1 nm none1] obtain root2 where
    w2: "open_write root1 ?cache body = Inr root2" by blast
  have copy: "shutil_copy root1 ?tmp ?cache = Inr root2"
    using nodir1 noex1 open_write_read[OF tmp] w2 by (simp add: shutil_copy_def)
  have "download_text_dataset env task_id dataset_url (Some ''s3'') dataset_dir st =
      (Inr (?cache, Some ''s3''), \<lparr>fs = root2, calls = calls st @ [HttpGet dataset_url]\<rparr>)"
    using absent s3 copy by (simp add: download_text_dataset_def bind_def makedirs_isdir[OF dir])
  with w2 show ?thesis by blast
qed

text \<open>
  C9. An \<open>s3\<close> request with no cache entry, a task id that is a plain name, an existing
  dataset directory and a URL answered with status 200 whose body the transport can
  store under \<open>/tmp\<close> (at a path other than the cache path): the fetch makes the one
  GET request and returns the path \<open>task_id_train_data.json\<close> inside the dataset
  directory, which now holds the body; the name comes from the task id, the URL's own
  name is used only for the temporary copy. Run again in the state it left, the fetch
  returns the same path and changes nothing: no further request.
\<close>

theorem s3_dataset_fetch:
  assumes get: "http_get env dataset_url = Inr (200, body)"
    and dir: "os_path_isdir (fs st) dataset_dir"
    and name: "CHR ''/'' \<notin> set task_id"
    and absent: "\<not> os_path_exists (fs st) (os_path_join dataset_dir (task_id @ ''_train_data.json''))"
    and tmp: "open_write (fs st) (os_path_join ''/tmp'' (os_path_basename (urlparse_path env dataset_url))) body
                = Inr root1"
    and diff: "split_path (os_path_join ''/tmp'' (os_path_basename (urlparse_path env dataset_url))) \<noteq>
               split_path (os_path_join dataset_dir (task_id @ ''_train_data.json''))"
  shows "\<exists>root2.
           download_text_dataset env task_id dataset_url (Some ''s3'') dataset_dir st =
             (Inr (os_path_join dataset_dir (task_id @ ''_train_data.json''), Some ''s3''),
              \<lparr>fs = root2, calls = calls st @ [HttpGet dataset_url]\<rparr>) \<and>
           read_file root2 (os_path_join dataset_dir (task_id @ ''_train_data.json'')) = Inr body \<and>
           download_text_dataset env task_id dataset_url (Some ''s3'') dataset_dir
               \<lparr>fs = root2, calls = calls st @ [HttpGet dataset_url]\<rparr> =
             (Inr (os_path_join dataset_dir (task_id @ ''_train_data.json''), Some ''s3''),
              \<lparr>fs = root2, calls = calls st @ [HttpGet dataset_url]\<rparr>)"
proof -
  let ?cache = "os_path_join dataset_dir (task_id @ ''_train_data.json'')"
  from s3_dataset_first_run[OF assms] obtain root2 where
    w2: "open_write root1 ?cache body = Inr root2"
    and first: "download_text_dataset env task_id dataset_url (Some ''s3'') dataset_dir st =
      (Inr (?cache, Some ''s3''), \<lparr>fs = root2, calls = calls st @ [HttpGet dataset_url]\<rparr>)"
    by blast
  have dir2: "os_path_isdir root2 dataset_dir"
    using open_write_keeps_isdir[OF w2 open_write_keeps_isdir[OF tmp dir]] .
  have ex2: "os_path_exists root2 ?cache"
    using open_write_exists[OF w2] .
  have again: "download_text_dataset env task_id dataset_url (Some ''s3'') dataset_dir
      \<lparr>fs = root2, calls = calls st @ [HttpGet dataset_url]\<rparr> =
      (Inr (?cache, Some ''s3''), \<lparr>fs = root2, calls = calls st @ [HttpGet dataset_url]\<rparr>)"
    using dir2 ex2 by (simp add: download_text_dataset_def bind_def makedirs_isdir)
  show ?thesis
    using first again open_write_read[OF w2] by blast
qed

text \<open>
  The first end-to-end scenario: task \<open>t1\<close>, URL \<open>https://ex.com/data.json\<close>, an empty cache.
\<close>

theorem s3_dataset_fetch_witness:
  "\<exists>root2.
     download_text_dataset (example_env []) ''t1'' ''https://ex.com/data.json'' (Some ''s3'')
         ''/cache/datasets'' ex_world =
       (Inr (''/cache/datasets/t1_train_data.json'', Some ''s3''),
        \<lparr>fs = root2, calls = [HttpGet ''https://ex.com/data.json'']\<rparr>) \<and>
     read_file root2 ''/cache/datasets/t1_train_data.json'' = Inr ''{}'' \<and>
     download_text_dataset (example_env []) ''t1'' ''https://ex.com/data.json'' (Some ''s3'')
         ''/cache/datasets'' \<lparr>fs = root2, calls = [HttpGet ''https://ex.com/data.json'']\<rparr> =
       (Inr (''/cache/datasets/t1_train_data.json'', Some ''s3''),
        \<lparr>fs = root2, calls = [HttpGet ''https://ex.com/data.json'']\<rparr>)"
proof -
  have g: "http_get (example_env []) ''https://ex.com/data.json'' = Inr (200, ''{}'')"
    by (simp add: example_env_def)
  have d: "os_path_isdir (fs ex_world) ''/cache/datasets''"
    by (simp add: ex_world_def ex_root_dirs)
  have n: "CHR ''/'' \<notin> set ''t1''" by simp
  have c: "os_path_join ''/cache/datasets'' (''t1'' @ ''_train_data.json'') =
      ''/cache/datasets/t1_train_data.json''"
    by (simp add: os_path_join_def startswith_slash_def endswith_slash_def)
  have t: "os_path_join ''/tmp'' (os_path_basename (urlparse_path (example_env []) ''https://ex.com/data.json'')) =
      ''/tmp/data.json''"
    by (simp add: example_env_def os_path_basename_def os_path_join_def startswith_slash_def
        endswith_slash_def)
  have a: "\<not> os_path_exists (fs ex_world) (os_path_join ''/cache/datasets'' (''t1'' @ ''_train_data.json''))"
    unfolding c by (simp add: ex_world_def ex_root_def os_path_exists_def split_path_def)
  obtain root1 where w: "open_write (fs ex_world) ''/tmp/data.json'' ''{}'' = Inr root1"
    by (simp add: open_write_def endswith_slash_def split_path_def ex_world_def ex_root_def)
  have df: "split_path ''/tmp/data.json'' \<noteq> split_path ''/cache/datasets/t1_train_data.json''"
    by (simp add: split_path_def)
  note c0 = ex_world_calls
  show ?thesis
    using s3_dataset_fetch[OF g d n a, of root1] w df
    unfolding c t c0 by simp
qed

section \<open>The single-file fetch\<close>

lemma weights_name:
  "CHR ''/'' \<notin> set (replace_slash ''_'' repo_id @ ''.safetensors'')"
  "replace_slash ''_'' repo_id @ ''.safetensors'' \<noteq> []"
  using replace_slash_no_slash[of "''_''" repo_id] by auto

lemma dfh_unfold:
  "download_from_huggingface env repo_id filename local_dir st =
     (let d = expanduser env local_dir;
          final_path = os_path_join d (replace_slash ''_'' repo_id @ ''.safetensors'')
      in case os_makedirs (fs st) d of
           Inl e \<Rightarrow> (Inl (OSError e), st)
         | Inr root1 \<Rightarrow>
             if os_path_exists root1 final_path then (Inr final_path, st\<lparr>fs := root1\<rparr>)
             else
               (case hf_hub_download env repo_id filename of
                  Inl e \<Rightarrow> (Inl (LibraryError e),
                            \<lparr>fs = root1, calls = calls st @ [HubDownload repo_id filename (mkdtemp env)]\<rparr>)
                | Inr content \<Rightarrow>
                    (case open_write root1 final_path content of
                       Inl e \<Rightarrow> (Inl (OSError e),
                                 \<lparr>fs = root1, calls = calls st @ [HubDownload repo_id filename (mkdtemp env)]\<rparr>)
                     | Inr root2 \<Rightarrow> (Inr final_path,
                                 \<lparr>fs = root2, calls = calls st @ [HubDownload repo_id filename (mkdtemp env)]\<rparr>))))"
  by (auto simp: download_from_huggingface_def Let_def bind_def makedirs_def shutil_move_def
      isdir_exists split: sum.splits)

lemma dfh_present:
  assumes "expanduser env local_dir \<noteq> []"
    "os_path_exists (fs st)
       (os_path_join (expanduser env local_dir) (replace_slash ''_'' repo_id @ ''.safetensors''))"
  shows "download_from_huggingface env repo_id filename local_dir st =
           (Inr (os_path_join (expanduser env local_dir) (replace_slash ''_'' repo_id @ ''.safetensors'')), st)"
proof -
  have "os_path_isdir (fs st) (expanduser env local_dir)"
    using exists_in_dir_isdir[OF weights_name assms] .
  then have "os_makedirs (fs st) (expanduser env local_dir) = Inr (fs st)"
    by (rule os_makedirs_isdir)
  then show ?thesis using assms(2) by (simp add: dfh_unfold)
qed

lemma dfh_downloads:
  assumes "os_makedirs (fs st) (expanduser env local_dir) = Inr root1"
    "\<not> os_path_exists root1
       (os_path_join (expanduser env local_dir) (replace_slash ''_'' repo_id @ ''.safetensors''))"
    "hf_hub_download env repo_id filename = Inr content"
  shows "\<exists>root2.
           open_write root1
             (os_path_join (expanduser env local_dir) (replace_slash ''_'' repo_id @ ''.safetensors''))
             content = Inr root2 \<and>
           download_from_huggingface env repo_id filename local_dir st =
             (Inr (os_path_join (expanduser env local_dir) (replace_slash ''_'' repo_id @ ''.safetensors'')),
              \<lparr>fs = root2, calls = calls st @ [HubDownload repo_id filename (mkdtemp env)]\<rparr>)"
proof -
  let ?final = "os_path_join (expanduser env local_dir) (replace_slash ''_'' repo_id @ ''.safetensors'')"
  have dir1: "os_path_isdir root1 (expanduser env local_dir)"
    using os_makedirs_isdir_after[OF assms(1)] .
  have "lookup root1 (split_path ?final) = None"
    using absent_name_in_dir[OF weights_name assms(2)] .
  from open_write_child[OF dir1 weights_name this] obtain root2 where
    "open_write root1 ?final content = Inr root2" by blast
  then show ?thesis using assms by (simp add: dfh_unfold)
qed

lemma dfh_twice:
  assumes "download_from_huggingface env repo_id filename local_dir st = (r1, st1)"
  shows "fst (download_from_huggingface env repo_id filename local_dir st1) = r1 \<and>
         fs (snd (download_from_huggingface env repo_id filename local_dir st1)) = fs st1 \<and>
         ((\<exists>p. r1 = Inr p) \<longrightarrow> download_from_huggingface env repo_id filename local_dir st1 = (r1, st1))"
proof (cases "os_makedirs (fs st) (expanduser env local_dir)")
  case (Inl e)
  with assms show ?thesis by (auto simp: dfh_unfold)
next
  case (Inr root1)
  let ?d = "expanduser env local_dir"
  let ?final = "os_path_join ?d (replace_slash ''_'' repo_id @ ''.safetensors'')"
  have idem: "os_makedirs root1 ?d = Inr root1" using os_makedirs_idem[OF Inr] .
  show ?thesis
  proof (cases "os_path_exists root1 ?final")
    case True
    with assms Inr idem show ?thesis by (auto simp: dfh_unfold)
  next
    case False
    show ?thesis
    proof (cases "hf_hub_download env repo_id filename")
      case (Inl e)
      with assms Inr idem False show ?thesis by (auto simp: dfh_unfold)
    next
      case hub: (Inr content)
      from dfh_downloads[OF \<open>os_makedirs (fs st) ?d = Inr root1\<close> False hub] obtain root2 where
        w: "open_write root1 ?final content = Inr root2"
        and r: "download_from_huggingface env repo_id filename local_dir st =
          (Inr ?final, \<lparr>fs = root2, calls = calls st @ [HubDownload repo_id filename (mkdtemp env)]\<rparr>)"
        by blast
      have "os_path_isdir root2 ?d"
        using open_write_keeps_isdir[OF w os_makedirs_isdir_after[OF \<open>os_makedirs (fs st) ?d = Inr root1\<close>]] .
      then have mk2: "os_makedirs root2 ?d = Inr root2" by (rule os_makedirs_isdir)
      have ex2: "os_path_exists root2 ?final" using open_write_exists[OF w] .
      show ?thesis using assms r mk2 ex2 by (auto simp: dfh_unfold)
    qed
  qed
qed

text \<open>
  C7. \<open>download_from_huggingface\<close>. If the final destination exists (and the directory
  name is not empty), the call downloads nothing, changes nothing and returns that
  path. In every state, a second call with the same arguments gives the result of the
  first and leaves the file tree the first one left. When the destination is missing
  after the directory has been created and the download succeeds, the one call made is
  the download into the temporary directory, and the bytes then stand at the final
  destination, the path returned.
\<close>

theorem single_file_fetch_idempotent:
  "(expanduser env local_dir \<noteq> [] \<and>
    os_path_exists (fs st)
      (os_path_join (expanduser env local_dir) (replace_slash ''_'' repo_id @ ''.safetensors'')) \<longrightarrow>
      download_from_huggingface env repo_id filename local_dir st =
        (Inr (os_path_join (expanduser env local_dir) (replace_slash ''_'' repo_id @ ''.safetensors'')), st)) \<and>
   fst (download_from_huggingface env repo_id filename local_dir
          (snd (download_from_huggingface env repo_id filename local_dir st))) =
     fst (download_from_huggingface env repo_id filename local_dir st) \<and>
   fs (snd (download_from_huggingface env repo_id filename local_dir
          (snd (download_from_huggingface env repo_id filename local_dir st)))) =
     fs (snd (download_from_huggingface env repo_id filename local_dir st)) \<and>
   (\<forall>root1 content.
      os_makedirs (fs st) (expanduser env local_dir) = Inr root1 \<and>
      \<not> os_path_exists root1
          (os_path_join (expanduser env local_dir) (replace_slash ''_'' repo_id @ ''.safetensors'')) \<and>
      hf_hub_download env repo_id filename = Inr content \<longrightarrow>
      (\<exists>root2.
         download_from_huggingface env repo_id filename local_dir st =
           (Inr (os_path_join (expanduser env local_dir) (replace_slash ''_'' repo_id @ ''.safetensors'')),
            \<lparr>fs = root2, calls = calls st @ [HubDownload repo_id filename (mkdtemp env)]\<rparr>) \<and>
         read_file root2
           (os_path_join (expanduser env local_dir) (replace_slash ''_'' repo_id @ ''.safetensors'')) =
           Inr content))"
proof (intro conjI allI impI)
  assume "expanduser env local_dir \<noteq> [] \<and>
    os_path_exists (fs st)
      (os_path_join (expanduser env local_dir) (replace_slash ''_'' repo_id @ ''.safetensors''))"
  then show "download_from_huggingface env repo_id filename local_dir st =
        (Inr (os_path_join (expanduser env local_dir) (replace_slash ''_'' repo_id @ ''.safetensors'')), st)"
    using dfh_present by blast
next
  show "fst (download_from_huggingface env repo_id filename local_dir
          (snd (download_from_huggingface env repo_id filename local_dir st))) =
     fst (download_from_huggingface env repo_id filename local_dir st)"
    using dfh_twice[of env repo_id filename local_dir st] by (metis prod.collapse)
next
  show "fs (snd (download_from_huggingface env repo_id filename local_dir
          (snd (download_from_huggingface env repo_id filename local_dir st)))) =
     fs (snd (download_from_huggingface env repo_id filename local_dir st))"
    using dfh_twice[of env repo_id filename local_dir st] by (metis prod.collapse)
next
  fix root1 content
  assume "os_makedirs (fs st) (expanduser env local_dir) = Inr root1 \<and>
      \<not> os_path_exists root1
          (os_path_join (expanduser env local_dir) (replace_slash ''_'' repo_id @ ''.safetensors'')) \<and>
      hf_hub_download env repo_id filename = Inr content"
  then obtain root2 where
    "open_write root1
       (os_path_join (expanduser env local_dir) (replace_slash ''_'' repo_id @ ''.safetensors''))
       content = Inr root2"
    "download_from_huggingface env repo_id filename local_dir st =
       (Inr (os_path_join (expanduser env local_dir) (replace_slash ''_'' repo_id @ ''.safetensors'')),
        \<lparr>fs = root2, calls = calls st @ [HubDownload repo_id filename (mkdtemp env)]\<rparr>)"
    using dfh_downloads by blast
  then show "\<exists>root2.
         download_from_huggingface env repo_id filename local_dir st =
           (Inr (os_path_join (expanduser env local_dir) (replace_slash ''_'' repo_id @ ''.safetensors'')),
            \<lparr>fs = root2, calls = calls st @ [HubDownload repo_id filename (mkdtemp env)]\<rparr>) \<and>
         read_file root2
           (os_path_join (expanduser env local_dir) (replace_slash ''_'' repo_id @ ''.safetensors'')) =
           Inr content"
    using open_write_read by blast
qed

text \<open>
  A first call that downloads, and a second call that returns the same result in the same state.
\<close>

theorem single_file_fetch_idempotent_witness:
  "fst (download_from_huggingface (example_env ex_weights) ''org/model'' ''model.safetensors''
          ''/cache/models/org--model'' ex_world) =
     Inr ''/cache/models/org--model/org_model.safetensors'' \<and>
   calls (snd (download_from_huggingface (example_env ex_weights) ''org/model'' ''model.safetensors''
          ''/cache/models/org--model'' ex_world)) =
     [HubDownload ''org/model'' ''model.safetensors'' ''/tmp/tmpdl''] \<and>
   download_from_huggingface (example_env ex_weights) ''org/model'' ''model.safetensors''
       ''/cache/models/org--model''
       (snd (download_from_huggingface (example_env ex_weights) ''org/model'' ''model.safetensors''
               ''/cache/models/org--model'' ex_world)) =
     download_from_huggingface (example_env ex_weights) ''org/model'' ''model.safetensors''
       ''/cache/models/org--model'' ex_world"
proof -
  let ?env = "example_env ex_weights"
  have e: "expanduser ?env ''/cache/models/org--model'' = ''/cache/models/org--model''"
    by (simp add: expanduser_def)
  obtain root1 where mk: "os_makedirs (fs ex_world) ''/cache/models/org--model'' = Inr root1"
    using ex_mk_model by blast
  have fresh: "\<not> os_path_exists root1 ''/cache/models/org--model/org_model.safetensors''"
    using fresh_dir_empty[OF weights_name _ ex_model_absent mk, of "''org/model''"]
    by (simp add: ex_model_paths os_path_exists_def)
  have hub: "hf_hub_download ?env ''org/model'' ''model.safetensors'' = Inr ''weights''"
    and tmp: "mkdtemp ?env = ''/tmp/tmpdl''"
    by (simp_all add: example_env_def)
  note c0 = ex_world_calls
  from single_file_fetch_idempotent[of ?env "''/cache/models/org--model''" ex_world "''org/model''"
      "''model.safetensors''"] mk fresh hub
  obtain root2 where first:
    "download_from_huggingface ?env ''org/model'' ''model.safetensors'' ''/cache/models/org--model'' ex_world =
       (Inr ''/cache/models/org--model/org_model.safetensors'',
        \<lparr>fs = root2, calls = [HubDownload ''org/model'' ''model.safetensors'' ''/tmp/tmpdl'']\<rparr>)"
    and rd: "read_file root2 ''/cache/models/org--model/org_model.safetensors'' = Inr ''weights''"
    unfolding e ex_model_paths tmp c0 by auto
  have ex2: "os_path_exists root2 ''/cache/models/org--model/org_model.safetensors''"
    using rd by (auto simp: read_file_def os_path_exists_def split: if_splits option.splits node.splits)
  have second: "download_from_huggingface ?env ''org/model'' ''model.safetensors'' ''/cache/models/org--model''
      \<lparr>fs = root2, calls = [HubDownload ''org/model'' ''model.safetensors'' ''/tmp/tmpdl'']\<rparr> =
      (Inr ''/cache/models/org--model/org_model.safetensors'',
        \<lparr>fs = root2, calls = [HubDownload ''org/model'' ''model.safetensors'' ''/tmp/tmpdl'']\<rparr>)"
    using single_file_fetch_idempotent[of ?env "''/cache/models/org--model''"
        "\<lparr>fs = root2, calls = [HubDownload ''org/model'' ''model.safetensors'' ''/tmp/tmpdl'']\<rparr>"
        "''org/model''" "''model.safetensors''"] ex2
    unfolding e ex_model_paths by simp
  show ?thesis using first second by simp
qed

section \<open>The base model\<close>

lemma base_model_selective:
  assumes abs: "startswith_slash save_root"
    and absent: "\<not> os_path_exists (fs st) (os_path_join save_root (replace_slash ''--'' repo_id))"
    and listing: "list_repo_tree env repo_id = Inr files"
    and sel: "largest_over total_check_size files = Some f"
    and mk: "os_makedirs (fs st) (os_path_join save_root (replace_slash ''--'' repo_id)) = Inr root1"
    and hub: "hf_hub_download env repo_id (path f) = Inr content"
  shows "\<exists>root2.
           open_write root1
             (os_path_join (os_path_join save_root (replace_slash ''--'' repo_id))
                (replace_slash ''_'' repo_id @ ''.safetensors'')) content = Inr root2 \<and>
           download_base_model env repo_id save_root st =
             (Inr (os_path_join (os_path_join save_root (replace_slash ''--'' repo_id))
                     (replace_slash ''_'' repo_id @ ''.safetensors'')),
              \<lparr>fs = root2,
               calls = calls st @ [ListRepoTree repo_id, HubDownload repo_id (path f) (mkdtemp env)]\<rparr>)"
proof -
  let ?save = "os_path_join save_root (replace_slash ''--'' repo_id)"
  let ?final = "os_path_join ?save (replace_slash ''_'' repo_id @ ''.safetensors'')"
  let ?st1 = "st\<lparr>calls := calls st @ [ListRepoTree repo_id]\<rparr>"
  have sabs: "startswith_slash ?save" using abs by (rule os_path_join_abs)
  then have exp: "expanduser env ?save = ?save" and ne: "?save \<noteq> []"
    by (simp_all add: expanduser_abs startswith_slash_not_Nil)
  have avail: "is_safetensors_available env repo_id st = (Inr (True, Some (path f)), ?st1)"
    using listing sel by (simp add: is_safetensors_available_def Let_def)
  have pne: "path f \<noteq> []"
    using largest_over_qualifies[OF sel] by (rule qualifies_path_not_Nil)
  have "lookup root1 (split_path ?final) = None"
    using fresh_dir_empty[OF weights_name ne absent mk] .
  then have nofinal: "\<not> os_path_exists root1 ?final"
    by (simp add: os_path_exists_def)
  from dfh_downloads[of ?st1 env ?save root1 repo_id "path f" content] mk nofinal hub exp
  obtain root2 where
    "open_write root1 ?final content = Inr root2"
    "download_from_huggingface env repo_id (path f) ?save ?st1 =
       (Inr ?final, \<lparr>fs = root2, calls = calls ?st1 @ [HubDownload repo_id (path f) (mkdtemp env)]\<rparr>)"
    by auto
  then show ?thesis
    using absent avail pne by (simp add: download_base_model_def bind_def)
qed

lemma base_model_fallback:
  assumes absent: "\<not> os_path_exists (fs st) (os_path_join save_root (replace_slash ''--'' repo_id))"
    and listing: "list_repo_tree env repo_id = Inr files"
    and sel: "largest_over total_check_size files = None"
  shows "download_base_model env repo_id save_root st =
           (case snapshot_download env repo_id RModel
                   (os_path_join save_root (replace_slash ''--'' repo_id)) None (fs st) of
              (Inl e, root') \<Rightarrow>
                (Inl (LibraryError e),
                 \<lparr>fs = root',
                  calls = calls st @ [ListRepoTree repo_id,
                    SnapshotDownload repo_id RModel (os_path_join save_root (replace_slash ''--'' repo_id)) None]\<rparr>)
            | (Inr u, root') \<Rightarrow>
                (Inr (os_path_join save_root (replace_slash ''--'' repo_id)),
                 \<lparr>fs = root',
                  calls = calls st @ [ListRepoTree repo_id,
                    SnapshotDownload repo_id RModel (os_path_join save_root (replace_slash ''--'' repo_id)) None]\<rparr>))"
  using assms
  by (auto simp: download_base_model_def bind_def is_safetensors_available_def snapshot_def Let_def
      split: sum.splits prod.splits)

text \<open>
  C4. \<open>download_base_model\<close> with no cache directory and a listing of the
  repository. The selector finds nothing exactly when no entry of the listing has the
  \<open>.safetensors\<close> suffix and a size above the check size. When it selects a file
  (and the cache directory can be created and the download succeeds), the calls made
  are the listing and the download of exactly that file, no snapshot, and the file's
  bytes arrive in the cache directory under the path returned. When it selects
  nothing, the calls made are the listing and one full snapshot of the repository
  into the cache directory, whose path is returned when the snapshot succeeds.
\<close>

theorem base_model_fetch_strategy:
  assumes "\<not> os_path_exists (fs st) (os_path_join save_root (replace_slash ''--'' repo_id))"
    and "list_repo_tree env repo_id = Inr files"
  shows "((largest_over total_check_size files = None) \<longleftrightarrow>
            (\<forall>f \<in> set files. \<not> qualifies total_check_size f)) \<and>
         (\<forall>f root1 content.
            largest_over total_check_size files = Some f \<and> startswith_slash save_root \<and>
            os_makedirs (fs st) (os_path_join save_root (replace_slash ''--'' repo_id)) = Inr root1 \<and>
            hf_hub_download env repo_id (path f) = Inr content \<longrightarrow>
            (\<exists>root2.
               download_base_model env repo_id save_root st =
                 (Inr (os_path_join (os_path_join save_root (replace_slash ''--'' repo_id))
                         (replace_slash ''_'' repo_id @ ''.safetensors'')),
                  \<lparr>fs = root2,
                   calls = calls st @ [ListRepoTree repo_id, HubDownload repo_id (path f) (mkdtemp env)]\<rparr>) \<and>
               read_file root2
                 (os_path_join (os_path_join save_root (replace_slash ''--'' repo_id))
                    (replace_slash ''_'' repo_id @ ''.safetensors'')) = Inr content)) \<and>
         (largest_over total_check_size files = None \<longrightarrow>
            download_base_model env repo_id save_root st =
              (case snapshot_download env repo_id RModel
                      (os_path_join save_root (replace_slash ''--'' repo_id)) None (fs st) of
                 (Inl e, root') \<Rightarrow>
                   (Inl (LibraryError e),
                    \<lparr>fs = root',
                     calls = calls st @ [ListRepoTree repo_id,
                       SnapshotDownload repo_id RModel (os_path_join save_root (replace_slash ''--'' repo_id)) None]\<rparr>)
               | (Inr u, root') \<Rightarrow>
                   (Inr (os_path_join save_root (replace_slash ''--'' repo_id)),
                    \<lparr>fs = root',
                     calls = calls st @ [ListRepoTree repo_id,
                       SnapshotDownload repo_id RModel (os_path_join save_root (replace_slash ''--'' repo_id)) None]\<rparr>)))"
proof (intro conjI allI impI)
  show "(largest_over total_check_size files = None) \<longleftrightarrow>
        (\<forall>f \<in> set files. \<not> qualifies total_check_size f)"
    by (rule largest_over_None_iff)
next
  fix f root1 content
  assume h: "largest_over total_check_size files = Some f \<and> startswith_slash save_root \<and>
            os_makedirs (fs st) (os_path_join save_root (replace_slash ''--'' repo_id)) = Inr root1 \<and>
            hf_hub_download env repo_id (path f) = Inr content"
  from base_model_selective[OF _ assms(1,2), of f root1 content] h
  obtain root2 where
    "open_write root1
       (os_path_join (os_path_join save_root (replace_slash ''--'' repo_id))
          (replace_slash ''_'' repo_id @ ''.safetensors'')) content = Inr root2"
    "download_base_model env repo_id save_root st =
       (Inr (os_path_join (os_path_join save_root (replace_slash ''--'' repo_id))
               (replace_slash ''_'' repo_id @ ''.safetensors'')),
        \<lparr>fs = root2,
         calls = calls st @ [ListRepoTree repo_id, HubDownload repo_id (path f) (mkdtemp env)]\<rparr>)"
    by blast
  then show "\<exists>root2.
       download_base_model env repo_id save_root st =
         (Inr (os_path_join (os_path_join save_root (replace_slash ''--'' repo_id))
                 (replace_slash ''_'' repo_id @ ''.safetensors'')),
          \<lparr>fs = root2,
           calls = calls st @ [ListRepoTree repo_id, HubDownload repo_id (path f) (mkdtemp env)]\<rparr>) \<and>
       read_file root2
         (os_path_join (os_path_join save_root (replace_slash ''--'' repo_id))
            (replace_slash ''_'' repo_id @ ''.safetensors'')) = Inr content"
    using open_write_read by blast
next
  assume "largest_over total_check_size files = None"
  then show "download_base_model env repo_id save_root st =
      (case snapshot_download env repo_id RModel
              (os_path_join save_root (replace_slash ''--'' repo_id)) None (fs st) of
         (Inl e, root') \<Rightarrow>
           (Inl (LibraryError e),
            \<lparr>fs = root',
             calls = calls st @ [ListRepoTree repo_id,
               SnapshotDownload repo_id RModel (os_path_join save_root (replace_slash ''--'' repo_id)) None]\<rparr>)
       | (Inr u, root') \<Rightarrow>
           (Inr (os_path_join save_root (replace_slash ''--'' repo_id)),
            \<lparr>fs = root',
             calls = calls st @ [ListRepoTree repo_id,
               SnapshotDownload repo_id RModel (os_path_join save_root (replace_slash ''--'' repo_id)) None]\<rparr>))"
    by (rule base_model_fallback[OF assms])
qed

text \<open>
  The second and third end-to-end scenarios: a listing with a 12 GiB \<open>model.safetensors\<close>,
  and a listing whose files are all smaller than 6 GiB.
\<close>

theorem base_model_fetch_strategy_witness:
  "fst (download_base_model (example_env ex_weights) ''org/model'' ''/cache/models'' ex_world) =
     Inr ''/cache/models/org--model/org_model.safetensors'' \<and>
   calls (snd (download_base_model (example_env ex_weights) ''org/model'' ''/cache/models'' ex_world)) =
     [ListRepoTree ''org/model'', HubDownload ''org/model'' ''model.safetensors'' ''/tmp/tmpdl''] \<and>
   fst (download_base_model (example_env ex_small) ''org/model'' ''/cache/models'' ex_world) =
     Inr ''/cache/models/org--model'' \<and>
   calls (snd (download_base_model (example_env ex_small) ''org/model'' ''/cache/models'' ex_world)) =
     [ListRepoTree ''org/model'', SnapshotDownload ''org/model'' RModel ''/cache/models/org--model'' None]"
proof -
  obtain root1 where mk: "os_makedirs (fs ex_world) ''/cache/models/org--model'' = Inr root1"
    using ex_mk_model by blast
  have abs: "startswith_slash ''/cache/models''" by (simp add: startswith_slash_def)
  have hub: "hf_hub_download (example_env ex_weights) ''org/model''
      (path (RepoFile ''model.safetensors'' (Some (12 * GiB)))) = Inr ''weights''"
    by (simp add: example_env_def)
  have l1: "list_repo_tree (example_env ex_weights) ''org/model'' = Inr ex_weights"
    and l2: "list_repo_tree (example_env ex_small) ''org/model'' = Inr ex_small"
    by (simp_all add: example_env_def)
  have absent: "\<not> os_path_exists (fs ex_world) (os_path_join ''/cache/models'' (replace_slash ''--'' ''org/model''))"
    using ex_model_absent by (simp add: ex_model_paths)
  have tmp: "mkdtemp (example_env ex_weights) = ''/tmp/tmpdl''" by (simp add: example_env_def)
  have first: "fst (download_base_model (example_env ex_weights) ''org/model'' ''/cache/models'' ex_world) =
       Inr ''/cache/models/org--model/org_model.safetensors'' \<and>
     calls (snd (download_base_model (example_env ex_weights) ''org/model'' ''/cache/models'' ex_world)) =
       [ListRepoTree ''org/model'', HubDownload ''org/model'' ''model.safetensors'' ''/tmp/tmpdl'']"
    using base_model_fetch_strategy[OF absent l1] ex_weights_sel abs mk hub tmp
    by (fastforce simp: ex_model_paths ex_world_def)
  have snap: "snapshot_download (example_env ex_small) ''org/model'' RModel ''/cache/models/org--model'' None
      (fs ex_world) = (Inr (), snd (snapshot_download (example_env ex_small) ''org/model'' RModel
         ''/cache/models/org--model'' None (fs ex_world)))"
    by (simp add: example_env_def)
  have second: "fst (download_base_model (example_env ex_small) ''org/model'' ''/cache/models'' ex_world) =
       Inr ''/cache/models/org--model'' \<and>
     calls (snd (download_base_model (example_env ex_small) ''org/model'' ''/cache/models'' ex_world)) =
       [ListRepoTree ''org/model'', SnapshotDownload ''org/model'' RModel ''/cache/models/org--model'' None]"
    using base_model_fetch_strategy[OF absent l2] ex_small_sel snap
    by (simp add: ex_model_paths ex_world_def split: prod.splits sum.splits)
  show ?thesis using first second by simp
qed

text \<open>
  C10. Whenever the cache directory of the model exists, \<open>download_base_model\<close> returns
  the directory's path and leaves the state as it was. In particular, after a first
  run (absolute cache root, no cache directory) whose selector chose a file and whose
  download succeeded, the value returned is the path of the \<open>.safetensors\<close> file
  inside the directory, and a second run in the state the first one left returns the
  directory's path, which is a different string.
\<close>

theorem base_model_return_unstable:
  "(os_path_exists (fs st) (os_path_join save_root (replace_slash ''--'' repo_id)) \<longrightarrow>
      download_base_model env repo_id save_root st =
        (Inr (os_path_join save_root (replace_slash ''--'' repo_id)), st)) \<and>
   (\<forall>files f root1 content.
      startswith_slash save_root \<and>
      \<not> os_path_exists (fs st) (os_path_join save_root (replace_slash ''--'' repo_id)) \<and>
      list_repo_tree env repo_id = Inr files \<and>
      largest_over total_check_size files = Some f \<and>
      os_makedirs (fs st) (os_path_join save_root (replace_slash ''--'' repo_id)) = Inr root1 \<and>
      hf_hub_download env repo_id (path f) = Inr content \<longrightarrow>
      (\<exists>st1.
         download_base_model env repo_id save_root st =
           (Inr (os_path_join (os_path_join save_root (replace_slash ''--'' repo_id))
                   (replace_slash ''_'' repo_id @ ''.safetensors'')), st1) \<and>
         download_base_model env repo_id save_root st1 =
           (Inr (os_path_join save_root (replace_slash ''--'' repo_id)), st1) \<and>
         os_path_join (os_path_join save_root (replace_slash ''--'' repo_id))
             (replace_slash ''_'' repo_id @ ''.safetensors'') \<noteq>
           os_path_join save_root (replace_slash ''--'' repo_id)))"
proof (intro conjI allI impI)
  assume "os_path_exists (fs st) (os_path_join save_root (replace_slash ''--'' repo_id))"
  then show "download_base_model env repo_id save_root st =
        (Inr (os_path_join save_root (replace_slash ''--'' repo_id)), st)"
    by (simp add: download_base_model_def)
next
  fix files f root1 content
  let ?save = "os_path_join save_root (replace_slash ''--'' repo_id)"
  let ?final = "os_path_join ?save (replace_slash ''_'' repo_id @ ''.safetensors'')"
  assume h: "startswith_slash save_root \<and> \<not> os_path_exists (fs st) ?save \<and>
      list_repo_tree env repo_id = Inr files \<and>
      largest_over total_check_size files = Some f \<and>
      os_makedirs (fs st) ?save = Inr root1 \<and>
      hf_hub_download env repo_id (path f) = Inr content"
  then obtain root2 where w: "open_write root1 ?final content = Inr root2"
    and first: "download_base_model env repo_id save_root st =
      (Inr ?final, \<lparr>fs = root2,
         calls = calls st @ [ListRepoTree repo_id, HubDownload repo_id (path f) (mkdtemp env)]\<rparr>)"
    using base_model_selective[of save_root st repo_id env files f root1 content] by blast
  have "os_path_isdir root1 ?save" using h os_makedirs_isdir_after by blast
  then have "os_path_isdir root2 ?save" using open_write_keeps_isdir[OF w] by blast
  then have ex: "os_path_exists root2 ?save" by (rule isdir_exists)
  have second: "download_base_model env repo_id save_root
      \<lparr>fs = root2, calls = calls st @ [ListRepoTree repo_id, HubDownload repo_id (path f) (mkdtemp env)]\<rparr> =
      (Inr ?save, \<lparr>fs = root2,
         calls = calls st @ [ListRepoTree repo_id, HubDownload repo_id (path f) (mkdtemp env)]\<rparr>)"
    using ex by (simp add: download_base_model_def)
  have "length ?final > length ?save"
    using weights_name[of repo_id]
    by (cases "replace_slash ''_'' repo_id @ ''.safetensors''")
       (auto simp: os_path_join_def startswith_slash_def)
  then have neq: "?final \<noteq> ?save" by auto
  show "\<exists>st1. download_base_model env repo_id save_root st = (Inr ?final, st1) \<and>
         download_base_model env repo_id save_root st1 = (Inr ?save, st1) \<and> ?final \<noteq> ?save"
    using first second neq by blast
qed

text \<open>
  Two runs for \<open>org/model\<close>: the first returns the file, the second the directory.
\<close>

theorem base_model_return_unstable_witness:
  "\<exists>st1.
     download_base_model (example_env ex_weights) ''org/model'' ''/cache/models'' ex_world =
       (Inr ''/cache/models/org--model/org_model.safetensors'', st1) \<and>
     download_base_model (example_env ex_weights) ''org/model'' ''/cache/models'' st1 =
       (Inr ''/cache/models/org--model'', st1)"
proof -
  obtain root1 where mk: "os_makedirs (fs ex_world) ''/cache/models/org--model'' = Inr root1"
    using ex_mk_model by blast
  have abs: "startswith_slash ''/cache/models''" by (simp add: startswith_slash_def)
  have hub: "hf_hub_download (example_env ex_weights) ''org/model''
      (path (RepoFile ''model.safetensors'' (Some (12 * GiB)))) = Inr ''weights''"
    and l1: "list_repo_tree (example_env ex_weights) ''org/model'' = Inr ex_weights"
    by (simp_all add: example_env_def)
  show ?thesis
    using base_model_return_unstable[of ex_world "''/cache/models''" "''org/model''" "example_env ex_weights"]
      abs ex_model_absent l1 ex_weights_sel mk hub
    unfolding ex_model_paths by blast
qed

section \<open>Cache hits\<close>

text \<open>
  C6. When the cache path of a request already exists, the fetch returns that path and
  leaves the state as it was: no call to a remote service and no change to the file
  tree. This holds for the dataset fetch with the formats \<open>s3\<close> and \<open>hf\<close>, in an
  existing dataset directory (\<open>main\<close> creates it before the call), and for the model
  fetch \<open>download_base_model\<close>.
\<close>

theorem cache_hit_no_op:
  "(os_path_isdir (fs st) dataset_dir \<and>
    os_path_exists (fs st) (os_path_join dataset_dir (task_id @ ''_train_data.json'')) \<longrightarrow>
      download_text_dataset env task_id dataset_url (Some ''s3'') dataset_dir st =
        (Inr (os_path_join dataset_dir (task_id @ ''_train_data.json''), Some ''s3''), st)) \<and>
   (os_path_isdir (fs st) dataset_dir \<and>
    os_path_exists (fs st) (os_path_join dataset_dir (replace_slash ''--'' dataset_url)) \<longrightarrow>
      download_text_dataset env task_id dataset_url (Some ''hf'') dataset_dir st =
        (Inr (os_path_join dataset_dir (replace_slash ''--'' dataset_url), Some ''hf''), st)) \<and>
   (os_path_exists (fs st) (os_path_join save_root (replace_slash ''--'' repo_id)) \<longrightarrow>
      download_base_model env repo_id save_root st =
        (Inr (os_path_join save_root (replace_slash ''--'' repo_id)), st))"
  by (simp add: download_text_dataset_def download_base_model_def bind_def makedirs_isdir)

text \<open>
  A file tree that holds the three cache entries: each fetch returns its entry and the state is unchanged.
\<close>

theorem cache_hit_no_op_witness:
  "os_path_isdir (fs ex_world_cached) ''/cache/datasets'' \<and>
   os_path_exists (fs ex_world_cached) ''/cache/datasets/t1_train_data.json'' \<and>
   os_path_exists (fs ex_world_cached) ''/cache/datasets/org--data'' \<and>
   os_path_exists (fs ex_world_cached) ''/cache/models/org--model'' \<and>
   download_text_dataset (example_env []) ''t1'' ''https://ex.com/data.json'' (Some ''s3'')
     ''/cache/datasets'' ex_world_cached =
       (Inr (''/cache/datasets/t1_train_data.json'', Some ''s3''), ex_world_cached) \<and>
   download_text_dataset (example_env []) ''t1'' ''org/data'' (Some ''hf'')
     ''/cache/datasets'' ex_world_cached =
       (Inr (''/cache/datasets/org--data'', Some ''hf''), ex_world_cached) \<and>
   download_base_model (example_env []) ''org/model'' ''/cache/models'' ex_world_cached =
       (Inr ''/cache/models/org--model'', ex_world_cached)"
proof -
  have a: "os_path_isdir (fs ex_world_cached) ''/cache/datasets''"
    by (simp add: ex_world_cached_def ex_root_cached_def os_path_isdir_def path_eval)
  have b: "os_path_exists (fs ex_world_cached) ''/cache/datasets/t1_train_data.json''"
    by (simp add: ex_world_cached_def ex_root_cached_def os_path_exists_def path_eval)
  have c: "os_path_exists (fs ex_world_cached) ''/cache/datasets/org--data''"
    by (simp add: ex_world_cached_def ex_root_cached_def os_path_exists_def path_eval)
  have d: "os_path_exists (fs ex_world_cached) ''/cache/models/org--model''"
    by (simp add: ex_world_cached_def ex_root_cached_def os_path_exists_def path_eval)
  have j1: "os_path_join ''/cache/datasets'' (''t1'' @ ''_train_data.json'') = ''/cache/datasets/t1_train_data.json''"
    and j2: "os_path_join ''/cache/datasets'' (replace_slash ''--'' ''org/data'') = ''/cache/datasets/org--data''"
    and j3: "os_path_join ''/cache/models'' (replace_slash ''--'' ''org/model'') = ''/cache/models/org--model''"
    by (simp_all add: path_eval)
  show ?thesis
    using a b c d
      cache_hit_no_op[of ex_world_cached "''/cache/datasets''" "''t1''" "example_env []"
        "''https://ex.com/data.json''" "''/cache/models''" "''org/model''"]
      cache_hit_no_op[of ex_world_cached "''/cache/datasets''" "''t1''" "example_env []"
        "''org/data''" "''/cache/models''" "''org/model''"]
    by (simp only: j1 j2 j3)
qed

section \<open>The large single-file variant\<close>

lemma dfh_error_kind:
  "download_from_huggingface env repo_id filename local_dir st = (Inl e, st') \<Longrightarrow>
   e \<noteq> NoValidFile x"
  by (auto simp: dfh_unfold Let_def split: sum.splits if_splits)

lemma flux_loop_none:
  "\<forall>f \<in> set files. \<not> qualifies (10 * 1024 * 1024 * 1024) f \<Longrightarrow>
   flux_loop env repo_id output_dir files acc st = (Inr acc, st)"
  by (induction files arbitrary: acc st) auto

lemma flux_loop_result:
  assumes "\<forall>fp lp. acc = Some (fp, lp) \<longrightarrow> fp \<noteq> []"
    and "flux_loop env repo_id output_dir files acc st = (res, st')"
  shows "case res of
           Inl e \<Rightarrow> \<forall>x. e \<noteq> NoValidFile x
         | Inr acc' \<Rightarrow>
             (\<forall>fp lp. acc' = Some (fp, lp) \<longrightarrow> fp \<noteq> []) \<and>
             (acc' = None \<longrightarrow>
                acc = None \<and> (\<forall>f \<in> set files. \<not> qualifies (10 * 1024 * 1024 * 1024) f))"
  using assms
proof (induction files arbitrary: acc st)
  case Nil
  then show ?case by auto
next
  case (Cons entry files)
  show ?case
  proof (cases "qualifies (10 * 1024 * 1024 * 1024) entry")
    case False
    with Cons.prems have "flux_loop env repo_id output_dir files acc st = (res, st')" by simp
    from Cons.IH[OF Cons.prems(1) this] False show ?thesis
      by (auto split: sum.splits)
  next
    case True
    obtain r st1 where d: "download_from_huggingface env repo_id (path entry) output_dir st = (r, st1)"
      by (cases "download_from_huggingface env repo_id (path entry) output_dir st")
    show ?thesis
    proof (cases r)
      case (Inl e)
      with Cons.prems True d have "res = Inl e" by simp
      then show ?thesis using dfh_error_kind d Inl by auto
    next
      case (Inr lp)
      with Cons.prems True d have
        rest: "flux_loop env repo_id output_dir files (Some (path entry, lp)) st1 = (res, st')"
        by simp
      have "\<forall>fp lp'. Some (path entry, lp) = Some (fp, lp') \<longrightarrow> fp \<noteq> []"
        using qualifies_path_not_Nil[OF True] by simp
      from Cons.IH[OF this rest] show ?thesis
        by (auto split: sum.splits)
    qed
  qed
qed

lemma flux_unet_fails_iff:
  assumes "list_repo_tree env repo_id = Inr files"
  shows "(fst (download_flux_unet env repo_id output_dir st) = Inl (NoValidFile repo_id)) \<longleftrightarrow>
         (\<forall>f \<in> set files. \<not> qualifies (10 * 1024 * 1024 * 1024) f)"
proof
  assume "\<forall>f \<in> set files. \<not> qualifies (10 * 1024 * 1024 * 1024) f"
  then show "fst (download_flux_unet env repo_id output_dir st) = Inl (NoValidFile repo_id)"
    using assms by (simp add: download_flux_unet_def Let_def flux_loop_none)
next
  assume fails: "fst (download_flux_unet env repo_id output_dir st) = Inl (NoValidFile repo_id)"
  let ?st1 = "st\<lparr>calls := calls st @ [ListRepoTree repo_id]\<rparr>"
  obtain res st' where l: "flux_loop env repo_id output_dir files None ?st1 = (res, st')"
    by (cases "flux_loop env repo_id output_dir files None ?st1")
  from flux_loop_result[OF _ l] have
    r: "case res of
           Inl e \<Rightarrow> \<forall>x. e \<noteq> NoValidFile x
         | Inr acc' \<Rightarrow>
             (\<forall>fp lp. acc' = Some (fp, lp) \<longrightarrow> fp \<noteq> []) \<and>
             (acc' = None \<longrightarrow> (\<forall>f \<in> set files. \<not> qualifies (10 * 1024 * 1024 * 1024) f))"
    by (auto split: sum.splits)
  show "\<forall>f \<in> set files. \<not> qualifies (10 * 1024 * 1024 * 1024) f"
    using fails assms l r
    by (auto simp: download_flux_unet_def Let_def split: sum.splits option.splits if_splits)
qed

lemma flux_loop_present:
  assumes "expanduser env output_dir \<noteq> []"
    and "os_path_exists (fs st)
       (os_path_join (expanduser env output_dir) (replace_slash ''_'' repo_id @ ''.safetensors''))"
  shows "\<exists>fp'. flux_loop env repo_id output_dir files
            (Some (fp, os_path_join (expanduser env output_dir) (replace_slash ''_'' repo_id @ ''.safetensors''))) st =
          (Inr (Some (fp', os_path_join (expanduser env output_dir) (replace_slash ''_'' repo_id @ ''.safetensors''))), st) \<and>
          (fp \<noteq> [] \<longrightarrow> fp' \<noteq> [])"
proof (induction files arbitrary: fp)
  case Nil
  show ?case by simp
next
  case (Cons entry files)
  show ?case
  proof (cases "qualifies (10 * 1024 * 1024 * 1024) entry")
    case False
    with Cons show ?thesis by simp
  next
    case True
    from Cons[of "path entry"] qualifies_path_not_Nil[OF True] obtain fp' where
      "flux_loop env repo_id output_dir files
            (Some (path entry, os_path_join (expanduser env output_dir) (replace_slash ''_'' repo_id @ ''.safetensors''))) st =
          (Inr (Some (fp', os_path_join (expanduser env output_dir) (replace_slash ''_'' repo_id @ ''.safetensors''))), st)"
      "fp' \<noteq> []"
      by blast
    then show ?thesis
      using True dfh_present[OF assms, of "path entry"] by auto
  qed
qed

lemma flux_loop_first:
  assumes "find (qualifies (10 * 1024 * 1024 * 1024)) files = Some f"
    and "os_makedirs (fs st) (expanduser env output_dir) = Inr root1"
    and "\<not> os_path_exists root1
       (os_path_join (expanduser env output_dir) (replace_slash ''_'' repo_id @ ''.safetensors''))"
    and "hf_hub_download env repo_id (path f) = Inr content"
  shows "\<exists>root2 fp'.
           open_write root1
             (os_path_join (expanduser env output_dir) (replace_slash ''_'' repo_id @ ''.safetensors''))
             content = Inr root2 \<and> fp' \<noteq> [] \<and>
           flux_loop env repo_id output_dir files acc st =
             (Inr (Some (fp', os_path_join (expanduser env output_dir)
                               (replace_slash ''_'' repo_id @ ''.safetensors''))),
              \<lparr>fs = root2, calls = calls st @ [HubDownload repo_id (path f) (mkdtemp env)]\<rparr>)"
  using assms(1)
proof (induction files arbitrary: acc)
  case Nil
  then show ?case by simp
next
  case (Cons entry files)
  let ?final = "os_path_join (expanduser env output_dir) (replace_slash ''_'' repo_id @ ''.safetensors'')"
  show ?case
  proof (cases "qualifies (10 * 1024 * 1024 * 1024) entry")
    case False
    with Cons show ?thesis by simp
  next
    case True
    with Cons.prems have f: "f = entry" by simp
    from dfh_downloads[OF assms(2,3,4)] obtain root2 where
      w: "open_write root1 ?final content = Inr root2"
      and d: "download_from_huggingface env repo_id (path f) output_dir st =
        (Inr ?final, \<lparr>fs = root2, calls = calls st @ [HubDownload repo_id (path f) (mkdtemp env)]\<rparr>)"
      by blast
    have ne: "expanduser env output_dir \<noteq> []"
      using assms(2) by (auto simp: os_makedirs_def)
    have ex: "os_path_exists (fs \<lparr>fs = root2, calls = calls st @ [HubDownload repo_id (path f) (mkdtemp env)]\<rparr>) ?final"
      using open_write_exists[OF w] by simp
    from flux_loop_present[OF ne ex, of files "path f"] qualifies_path_not_Nil[OF True] f
    obtain fp' where
      "flux_loop env repo_id output_dir files (Some (path f, ?final))
         \<lparr>fs = root2, calls = calls st @ [HubDownload repo_id (path f) (mkdtemp env)]\<rparr> =
       (Inr (Some (fp', ?final)),
         \<lparr>fs = root2, calls = calls st @ [HubDownload repo_id (path f) (mkdtemp env)]\<rparr>)"
      "fp' \<noteq> []"
      by blast
    then show ?thesis using True f d w by auto
  qed
qed

lemma flux_unet_first:
  assumes "list_repo_tree env repo_id = Inr files"
    and "find (qualifies (10 * 1024 * 1024 * 1024)) files = Some f"
    and "os_makedirs (fs st) (expanduser env output_dir) = Inr root1"
    and "\<not> os_path_exists root1
       (os_path_join (expanduser env output_dir) (replace_slash ''_'' repo_id @ ''.safetensors''))"
    and "hf_hub_download env repo_id (path f) = Inr content"
  shows "\<exists>root2.
           open_write root1
             (os_path_join (expanduser env output_dir) (replace_slash ''_'' repo_id @ ''.safetensors''))
             content = Inr root2 \<and>
           download_flux_unet env repo_id output_dir st =
             (Inr (os_path_join (expanduser env output_dir) (replace_slash ''_'' repo_id @ ''.safetensors'')),
              \<lparr>fs = root2,
               calls = calls st @ [ListRepoTree repo_id, HubDownload repo_id (path f) (mkdtemp env)]\<rparr>)"
proof -
  let ?st1 = "st\<lparr>calls := calls st @ [ListRepoTree repo_id]\<rparr>"
  from flux_loop_first[of files f ?st1 env output_dir root1 repo_id content None] assms(2-5)
  obtain root2 fp' where
    "open_write root1
       (os_path_join (expanduser env output_dir) (replace_slash ''_'' repo_id @ ''.safetensors''))
       content = Inr root2"
    "fp' \<noteq> []"
    "flux_loop env repo_id output_dir files None ?st1 =
       (Inr (Some (fp', os_path_join (expanduser env output_dir)
                         (replace_slash ''_'' repo_id @ ''.safetensors''))),
        \<lparr>fs = root2, calls = calls ?st1 @ [HubDownload repo_id (path f) (mkdtemp env)]\<rparr>)"
    by auto
  then show ?thesis
    using assms(1) by (simp add: download_flux_unet_def Let_def)
qed

lemma ex_flux_run:
  "\<exists>root2.
     download_flux_unet (example_env ex_flux) ''org/flux'' ''/cache/models'' ex_world =
       (Inr ''/cache/models/org_flux.safetensors'',
        \<lparr>fs = root2,
         calls = [ListRepoTree ''org/flux'', HubDownload ''org/flux'' ''a.safetensors'' ''/tmp/tmpdl'']\<rparr>)"
proof -
  let ?env = "example_env ex_flux"
  have e: "expanduser ?env ''/cache/models'' = ''/cache/models''"
    by (simp add: expanduser_def)
  have mk: "os_makedirs (fs ex_world) (expanduser ?env ''/cache/models'') = Inr (fs ex_world)"
    unfolding e by (rule os_makedirs_isdir) (simp add: ex_world_def ex_root_dirs)
  have fresh: "\<not> os_path_exists (fs ex_world)
      (os_path_join (expanduser ?env ''/cache/models'') (replace_slash ''_'' ''org/flux'' @ ''.safetensors''))"
    unfolding e ex_flux_paths
    by (simp add: ex_world_def ex_root_def os_path_exists_def split_path_def)
  have l: "list_repo_tree ?env ''org/flux'' = Inr ex_flux"
    and hub: "hf_hub_download ?env ''org/flux'' (path (RepoFile ''a.safetensors'' (Some (11 * GiB)))) = Inr ''weights''"
    and tmp: "mkdtemp ?env = ''/tmp/tmpdl''"
    by (simp_all add: example_env_def)
  have f: "find (qualifies (10 * 1024 * 1024 * 1024)) ex_flux = Some (RepoFile ''a.safetensors'' (Some (11 * GiB)))"
    by (simp add: ex_flux_def qualifies_def endswith_def GiB_def)
  from flux_unet_first[OF l f mk fresh hub] show ?thesis
    unfolding e ex_flux_paths tmp ex_world_calls by auto
qed

text \<open>
  C5, as the code has it. With the listing of the repository, \<open>download_flux_unet\<close>
  fails with its own error (no valid file found) exactly when no entry has the
  \<open>.safetensors\<close> suffix and a size above 10 GiB. Otherwise it hands every such
  entry, in listing order, to the single-file fetch, always for the same destination;
  when that destination is missing after the directory has been created and the
  download succeeds, the calls made are the listing and the download of the first
  qualifying entry in listing order, whose bytes then stand at the destination, the
  path returned.
\<close>

theorem flux_unet_first_qualifying:
  assumes "list_repo_tree env repo_id = Inr files"
  shows "((fst (download_flux_unet env repo_id output_dir st) = Inl (NoValidFile repo_id)) \<longleftrightarrow>
            (\<forall>f \<in> set files. \<not> qualifies (10 * GiB) f)) \<and>
         (\<forall>f root1 content.
            find (qualifies (10 * GiB)) files = Some f \<and>
            os_makedirs (fs st) (expanduser env output_dir) = Inr root1 \<and>
            \<not> os_path_exists root1
                (os_path_join (expanduser env output_dir) (replace_slash ''_'' repo_id @ ''.safetensors'')) \<and>
            hf_hub_download env repo_id (path f) = Inr content \<longrightarrow>
            (\<exists>root2.
               download_flux_unet env repo_id output_dir st =
                 (Inr (os_path_join (expanduser env output_dir)
                         (replace_slash ''_'' repo_id @ ''.safetensors'')),
                  \<lparr>fs = root2,
                   calls = calls st @ [ListRepoTree repo_id, HubDownload repo_id (path f) (mkdtemp env)]\<rparr>) \<and>
               read_file root2
                 (os_path_join (expanduser env output_dir) (replace_slash ''_'' repo_id @ ''.safetensors'')) =
                 Inr content))"
proof -
  have g: "10 * GiB = 10 * 1024 * 1024 * 1024" by (simp add: GiB_def)
  show ?thesis
    unfolding g
  proof (intro conjI allI impI)
    show "(fst (download_flux_unet env repo_id output_dir st) = Inl (NoValidFile repo_id)) \<longleftrightarrow>
          (\<forall>f \<in> set files. \<not> qualifies (10 * 1024 * 1024 * 1024) f)"
      by (rule flux_unet_fails_iff[OF assms])
  next
    fix f root1 content
    assume "find (qualifies (10 * 1024 * 1024 * 1024)) files = Some f \<and>
            os_makedirs (fs st) (expanduser env output_dir) = Inr root1 \<and>
            \<not> os_path_exists root1
                (os_path_join (expanduser env output_dir) (replace_slash ''_'' repo_id @ ''.safetensors'')) \<and>
            hf_hub_download env repo_id (path f) = Inr content"
    with flux_unet_first[OF assms, where f=f and output_dir=output_dir and st=st and ?root1.0=root1 and content=content]
    show "\<exists>root2.
               download_flux_unet env repo_id output_dir st =
                 (Inr (os_path_join (expanduser env output_dir)
                         (replace_slash ''_'' repo_id @ ''.safetensors'')),
                  \<lparr>fs = root2,
                   calls = calls st @ [ListRepoTree repo_id, HubDownload repo_id (path f) (mkdtemp env)]\<rparr>) \<and>
               read_file root2
                 (os_path_join (expanduser env output_dir) (replace_slash ''_'' repo_id @ ''.safetensors'')) =
                 Inr content"
      using open_write_read by blast
  qed
qed

text \<open>
  A listing with two qualifying entries, and a listing with none.
\<close>

theorem flux_unet_first_qualifying_witness:
  "list_repo_tree (example_env ex_flux) ''org/flux'' = Inr ex_flux \<and>
   find (qualifies (10 * GiB)) ex_flux = Some (RepoFile ''a.safetensors'' (Some (11 * GiB))) \<and>
   (\<exists>root2.
      download_flux_unet (example_env ex_flux) ''org/flux'' ''/cache/models'' ex_world =
        (Inr ''/cache/models/org_flux.safetensors'',
         \<lparr>fs = root2,
          calls = [ListRepoTree ''org/flux'', HubDownload ''org/flux'' ''a.safetensors'' ''/tmp/tmpdl'']\<rparr>) \<and>
      read_file root2 ''/cache/models/org_flux.safetensors'' = Inr ''weights'') \<and>
   fst (download_flux_unet (example_env ex_small) ''org/flux'' ''/cache/models'' ex_world) =
     Inl (NoValidFile ''org/flux'')"
proof -
  let ?env = "example_env ex_flux"
  have e: "expanduser ?env ''/cache/models'' = ''/cache/models''"
    by (simp add: expanduser_def)
  have mk: "os_makedirs (fs ex_world) (expanduser ?env ''/cache/models'') = Inr (fs ex_world)"
    unfolding e by (rule os_makedirs_isdir) (simp add: ex_world_def ex_root_dirs)
  have fresh: "\<not> os_path_exists (fs ex_world)
      (os_path_join (expanduser ?env ''/cache/models'') (replace_slash ''_'' ''org/flux'' @ ''.safetensors''))"
    unfolding e ex_flux_paths
    by (simp add: ex_world_def ex_root_def os_path_exists_def split_path_def)
  have l: "list_repo_tree ?env ''org/flux'' = Inr ex_flux"
    and hub: "hf_hub_download ?env ''org/flux'' (path (RepoFile ''a.safetensors'' (Some (11 * GiB)))) = Inr ''weights''"
    and tmp: "mkdtemp ?env = ''/tmp/tmpdl''"
    and l2: "list_repo_tree (example_env ex_small) ''org/flux'' = Inr ex_small"
    by (simp_all add: example_env_def)
  have f: "find (qualifies (10 * GiB)) ex_flux = Some (RepoFile ''a.safetensors'' (Some (11 * GiB)))"
    by (simp add: ex_flux_def qualifies_def endswith_def GiB_def)
  have none: "\<forall>f \<in> set ex_small. \<not> qualifies (10 * GiB) f"
    by (simp add: ex_small_def qualifies_def endswith_def GiB_def)
  have a: "\<exists>root2.
      download_flux_unet ?env ''org/flux'' ''/cache/models'' ex_world =
        (Inr ''/cache/models/org_flux.safetensors'',
         \<lparr>fs = root2,
          calls = [ListRepoTree ''org/flux'', HubDownload ''org/flux'' ''a.safetensors'' ''/tmp/tmpdl'']\<rparr>) \<and>
      read_file root2 ''/cache/models/org_flux.safetensors'' = Inr ''weights''"
    using flux_unet_first_qualifying[OF l, of "''/cache/models''" ex_world] f mk fresh hub
    unfolding e ex_flux_paths tmp ex_world_calls by auto
  have b: "fst (download_flux_unet (example_env ex_small) ''org/flux'' ''/cache/models'' ex_world) =
     Inl (NoValidFile ''org/flux'')"
    using flux_unet_first_qualifying[OF l2, of "''/cache/models''" ex_world] none by blast
  show ?thesis using l f a b by blast
qed

text \<open>
  C5 as stated fails: of two qualifying entries of 11 GiB and 12 GiB, in this order, the
  selector with the 10 GiB check size chooses the second, and \<open>download_flux_unet\<close>
  downloads the first.
\<close>

theorem flux_unet_not_largest_counterexample:
  "largest_over (10 * GiB) ex_flux = Some (RepoFile ''b.safetensors'' (Some (12 * GiB))) \<and>
   fst (download_flux_unet (example_env ex_flux) ''org/flux'' ''/cache/models'' ex_world) =
     Inr ''/cache/models/org_flux.safetensors'' \<and>
   calls (snd (download_flux_unet (example_env ex_flux) ''org/flux'' ''/cache/models'' ex_world)) =
     [ListRepoTree ''org/flux'', HubDownload ''org/flux'' ''a.safetensors'' ''/tmp/tmpdl'']"
proof -
  have "largest_over (10 * GiB) ex_flux = Some (RepoFile ''b.safetensors'' (Some (12 * GiB)))"
    by (simp add: ex_flux_def largest_over_def largest_step_def endswith_def GiB_def)
  then show ?thesis using ex_flux_run by auto
qed

section \<open>The model fetch in main\<close>

lemma axolotl_unfold:
  "download_axolotl_base_model env repo_id save_dir st =
     (if os_path_exists (fs st) (os_path_join save_dir (replace_slash ''--'' repo_id))
      then (Inr (os_path_join save_dir (replace_slash ''--'' repo_id)), st)
      else
        (case snapshot_download env repo_id RModel
                (os_path_join save_dir (replace_slash ''--'' repo_id)) None (fs st) of
           (Inl e, root') \<Rightarrow>
             (Inl (LibraryError e),
              \<lparr>fs = root',
               calls = calls st @
                 [SnapshotDownload repo_id RModel (os_path_join save_dir (replace_slash ''--'' repo_id)) None]\<rparr>)
         | (Inr u, root') \<Rightarrow>
             (Inr (os_path_join save_dir (replace_slash ''--'' repo_id)),
              \<lparr>fs = root',
               calls = calls st @
                 [SnapshotDownload repo_id RModel (os_path_join save_dir (replace_slash ''--'' repo_id)) None]\<rparr>)))"
  by (auto simp: download_axolotl_base_model_def Let_def bind_def snapshot_def split: prod.splits sum.splits)

lemma main_text_task:
  assumes tt: "arg_task_type a \<in> {''InstructTextTask'', ''DpoTask'', ''GrpoTask''}"
    and d1: "makedirs ''/cache/datasets'' st = (Inr (), sta)"
    and d2: "makedirs ''/cache/models'' sta = (Inr (), stb)"
    and ds: "download_text_dataset env (arg_task_id a) (arg_dataset a) (arg_file_format a)
               ''/cache/datasets'' stb = (Inr r, st1)"
  shows "main env a st =
           (case download_axolotl_base_model env (arg_model a) ''/cache/models'' st1 of
              (Inl e, st2) \<Rightarrow> (Inl e, st2)
            | (Inr model_path, st2) \<Rightarrow> (Inr (model_path, ''/cache/datasets''), st2))"
proof -
  have c: "arg_task_type a \<in> set task_type_choices" "arg_task_type a \<noteq> ''ImageTask''"
    using tt by (auto simp: task_type_choices_def)
  show ?thesis
    using c d1 d2 ds
    by (cases r) (simp add: main_def Let_def bind_def split: prod.splits sum.splits)
qed

lemma main_image_task:
  assumes tt: "arg_task_type a = ''ImageTask''"
    and d1: "makedirs ''/cache/datasets'' st = (Inr (), sta)"
    and d2: "makedirs ''/cache/models'' sta = (Inr (), stb)"
    and ds: "download_image_dataset env (arg_dataset a) (arg_task_id a) ''/cache/datasets'' stb = (Inr z, sti)"
  shows "main env a st =
           (case download_base_model env (arg_model a) ''/cache/models'' sti of
              (Inl e, st2) \<Rightarrow> (Inl e, st2)
            | (Inr model_path, st2) \<Rightarrow>
                bind (clip_tokenizer env ''openai/clip-vit-large-patch14'' ''/cache/hf_cache'') (\<lambda>_.
                bind (clip_tokenizer env ''laion/CLIP-ViT-bigG-14-laion2B-39B-b160k'' ''/cache/hf_cache'') (\<lambda>_.
                bind (snapshot env ''google/t5-v1_1-xxl'' RModel ''/cache/hf_cache/google--t5-v1_1-xxl''
                        (Some [''tokenizer_config.json'', ''spiece.model'',
                               ''special_tokens_map.json'', ''tokenizer.json'']))
                  (\<lambda>_ st3. (Inr (model_path, ''/cache/datasets''), st3)))) st2)"
proof -
  have c: "arg_task_type a \<in> set task_type_choices"
    using tt by (simp add: task_type_choices_def)
  show ?thesis
    using c tt d1 d2 ds
    by (simp add: main_def Let_def bind_def split: prod.splits sum.splits)
qed

lemma main_rejects:
  "arg_task_type a \<notin> set task_type_choices \<Longrightarrow> main env a st = (Inl ArgumentError, st)"
  by (simp add: main_def Let_def)

lemma ex_dataset_run:
  "\<exists>root2.
     download_text_dataset (example_env files) ''t1'' ''https://ex.com/data.json'' (Some ''s3'')
         ''/cache/datasets'' ex_world =
       (Inr (''/cache/datasets/t1_train_data.json'', Some ''s3''),
        \<lparr>fs = root2, calls = [HttpGet ''https://ex.com/data.json'']\<rparr>) \<and>
     \<not> os_path_exists root2 ''/cache/models/org--model''"
proof -
  let ?env = "example_env files"
  have g: "http_get ?env ''https://ex.com/data.json'' = Inr (200, ''{}'')"
    by (simp add: example_env_def)
  have d: "os_path_isdir (fs ex_world) ''/cache/datasets''"
    by (simp add: ex_world_def ex_root_dirs)
  have n: "CHR ''/'' \<notin> set ''t1''" by simp
  have c: "os_path_join ''/cache/datasets'' (''t1'' @ ''_train_data.json'') =
      ''/cache/datasets/t1_train_data.json''"
    by (simp add: os_path_join_def startswith_slash_def endswith_slash_def)
  have t: "os_path_join ''/tmp'' (os_path_basename (urlparse_path ?env ''https://ex.com/data.json'')) =
      ''/tmp/data.json''"
    by (simp add: example_env_def os_path_basename_def os_path_join_def startswith_slash_def
        endswith_slash_def)
  have a: "\<not> os_path_exists (fs ex_world) (os_path_join ''/cache/datasets'' (''t1'' @ ''_train_data.json''))"
    unfolding c by (simp add: ex_world_def ex_root_def os_path_exists_def split_path_def)
  obtain root1 where w: "open_write (fs ex_world) ''/tmp/data.json'' ''{}'' = Inr root1"
    by (simp add: open_write_def endswith_slash_def split_path_def ex_world_def ex_root_def)
  have df: "split_path ''/tmp/data.json'' \<noteq> split_path ''/cache/datasets/t1_train_data.json''"
    by (simp add: split_path_def)
  from s3_dataset_first_run[OF g d n a, of root1] w df
  obtain root2 where w2: "open_write root1 ''/cache/datasets/t1_train_data.json'' ''{}'' = Inr root2"
    and run: "download_text_dataset ?env ''t1'' ''https://ex.com/data.json'' (Some ''s3'')
         ''/cache/datasets'' ex_world =
       (Inr (''/cache/datasets/t1_train_data.json'', Some ''s3''),
        \<lparr>fs = root2, calls = [HttpGet ''https://ex.com/data.json'']\<rparr>)"
    unfolding c t ex_world_calls by auto
  have m0: "lookup (fs ex_world) (split_path ''/cache/models/org--model'') = None"
    by (simp add: ex_world_def ex_root_def split_path_def)
  have m1: "lookup root1 (split_path ''/cache/models/org--model'') = None"
    by (rule open_write_keeps_absent[OF w m0]) (simp add: split_path_def)
  have m2: "lookup root2 (split_path ''/cache/models/org--model'') = None"
    by (rule open_write_keeps_absent[OF w2 m1]) (simp add: split_path_def)
  show ?thesis using run m2 by (auto simp: os_path_exists_def)
qed

lemma ex_image_dataset_run:
  "\<exists>root1.
     download_image_dataset (example_env files) ''https://ex.com/data.zip'' ''t1'' ''/cache/datasets'' ex_world =
       (Inr ''/cache/datasets/t1.zip'', \<lparr>fs = root1, calls = [HttpGet ''https://ex.com/data.zip'']\<rparr>) \<and>
     os_path_isdir root1 ''/cache/models'' \<and>
     \<not> os_path_exists root1 ''/cache/models/org--model''"
proof -
  let ?env = "example_env files"
  have d: "makedirs ''/cache/datasets'' ex_world = (Inr (), ex_world)"
    by (rule makedirs_isdir) (simp add: ex_world_def ex_root_dirs)
  have z: "''/cache/datasets'' @ ''/'' @ ''t1'' @ ''.zip'' = ''/cache/datasets/t1.zip''" by simp
  have nd: "\<not> os_path_isdir (fs ex_world) ''/cache/datasets/t1.zip''"
    by (simp add: ex_world_def ex_root_def os_path_isdir_def split_path_def)
  have p: "local_file_path_of ?env (fs ex_world) ''https://ex.com/data.zip''
      (Some ''/cache/datasets/t1.zip'') ''/tmp'' = ''/cache/datasets/t1.zip''"
    using nd by (simp add: local_file_path_of_def)
  obtain root1 where w: "open_write (fs ex_world) ''/cache/datasets/t1.zip'' ''{}'' = Inr root1"
    by (simp add: open_write_def endswith_slash_def split_path_def ex_world_def ex_root_def)
  have g: "http_get ?env ''https://ex.com/data.zip'' = Inr (200, ''{}'')"
    by (simp add: example_env_def)
  have run: "download_image_dataset ?env ''https://ex.com/data.zip'' ''t1'' ''/cache/datasets'' ex_world =
       (Inr ''/cache/datasets/t1.zip'', \<lparr>fs = root1, calls = [HttpGet ''https://ex.com/data.zip'']\<rparr>)"
  proof -
    have "download_s3_file ?env ''https://ex.com/data.zip'' (Some ''/cache/datasets/t1.zip'') ''/tmp'' ex_world =
        (Inr ''/cache/datasets/t1.zip'', \<lparr>fs = root1, calls = [HttpGet ''https://ex.com/data.zip'']\<rparr>)"
      using g w by (simp add: download_s3_file_def Let_def p ex_world_calls)
    then show ?thesis
      using d by (simp add: download_image_dataset_def bind_def)
  qed
  have dir: "os_path_isdir root1 ''/cache/models''"
    by (rule open_write_keeps_isdir[OF w]) (simp add: ex_world_def ex_root_dirs)
  have m0: "lookup (fs ex_world) (split_path ''/cache/models/org--model'') = None"
    by (simp add: ex_world_def ex_root_def split_path_def)
  have m1: "lookup root1 (split_path ''/cache/models/org--model'') = None"
    by (rule open_write_keeps_absent[OF w m0]) (simp add: split_path_def)
  show ?thesis using run dir m1 by (auto simp: os_path_exists_def)
qed

text \<open>
  C1, as the code has it. For the task types \<open>InstructTextTask\<close>, \<open>DpoTask\<close> and
  \<open>GrpoTask\<close> (the cache directories in place, the dataset fetched), \<open>main\<close> fetches
  the model with \<open>download_axolotl_base_model\<close> and prints its path with the dataset
  directory. That fetch returns the cache path when it exists, with no call; otherwise
  its one call is a full snapshot of the repository into the cache path: the
  repository is not listed and no file is selected. For \<open>ImageTask\<close> (the cache
  directories in place, the image dataset fetched), \<open>main\<close> fetches the model with
  \<open>download_base_model\<close>, the selective fetch, and then the three tokenizer
  assets. Any other task type is refused by the argument parser before any fetch.
\<close>

theorem text_task_model_fetch:
  "(arg_task_type a \<in> {''InstructTextTask'', ''DpoTask'', ''GrpoTask''} \<and>
    makedirs ''/cache/datasets'' st = (Inr (), sta) \<and>
    makedirs ''/cache/models'' sta = (Inr (), stb) \<and>
    download_text_dataset env (arg_task_id a) (arg_dataset a) (arg_file_format a)
      ''/cache/datasets'' stb = (Inr r, st1) \<longrightarrow>
      main env a st =
        (case download_axolotl_base_model env (arg_model a) ''/cache/models'' st1 of
           (Inl e, st2) \<Rightarrow> (Inl e, st2)
         | (Inr model_path, st2) \<Rightarrow> (Inr (model_path, ''/cache/datasets''), st2)) \<and>
      download_axolotl_base_model env (arg_model a) ''/cache/models'' st1 =
        (if os_path_exists (fs st1) (os_path_join ''/cache/models'' (replace_slash ''--'' (arg_model a)))
         then (Inr (os_path_join ''/cache/models'' (replace_slash ''--'' (arg_model a))), st1)
         else
           (case snapshot_download env (arg_model a) RModel
                   (os_path_join ''/cache/models'' (replace_slash ''--'' (arg_model a))) None (fs st1) of
              (Inl e, root') \<Rightarrow>
                (Inl (LibraryError e),
                 \<lparr>fs = root',
                  calls = calls st1 @
                    [SnapshotDownload (arg_model a) RModel
                       (os_path_join ''/cache/models'' (replace_slash ''--'' (arg_model a))) None]\<rparr>)
            | (Inr u, root') \<Rightarrow>
                (Inr (os_path_join ''/cache/models'' (replace_slash ''--'' (arg_model a))),
                 \<lparr>fs = root',
                  calls = calls st1 @
                    [SnapshotDownload (arg_model a) RModel
                       (os_path_join ''/cache/models'' (replace_slash ''--'' (arg_model a))) None]\<rparr>)))) \<and>
   (arg_task_type a = ''ImageTask'' \<and>
    makedirs ''/cache/datasets'' st = (Inr (), sta) \<and>
    makedirs ''/cache/models'' sta = (Inr (), stb) \<and>
    download_image_dataset env (arg_dataset a) (arg_task_id a) ''/cache/datasets'' stb = (Inr z, sti) \<longrightarrow>
      main env a st =
        (case download_base_model env (arg_model a) ''/cache/models'' sti of
           (Inl e, st2) \<Rightarrow> (Inl e, st2)
         | (Inr model_path, st2) \<Rightarrow>
             bind (clip_tokenizer env ''openai/clip-vit-large-patch14'' ''/cache/hf_cache'') (\<lambda>_.
             bind (clip_tokenizer env ''laion/CLIP-ViT-bigG-14-laion2B-39B-b160k'' ''/cache/hf_cache'') (\<lambda>_.
             bind (snapshot env ''google/t5-v1_1-xxl'' RModel ''/cache/hf_cache/google--t5-v1_1-xxl''
                     (Some [''tokenizer_config.json'', ''spiece.model'',
                            ''special_tokens_map.json'', ''tokenizer.json'']))
               (\<lambda>_ st3. (Inr (model_path, ''/cache/datasets''), st3)))) st2)) \<and>
   (arg_task_type a \<notin> {''ImageTask'', ''InstructTextTask'', ''DpoTask'', ''GrpoTask''} \<longrightarrow>
      main env a st = (Inl ArgumentError, st))"
proof (intro conjI impI)
  assume h: "arg_task_type a \<in> {''InstructTextTask'', ''DpoTask'', ''GrpoTask''} \<and>
    makedirs ''/cache/datasets'' st = (Inr (), sta) \<and>
    makedirs ''/cache/models'' sta = (Inr (), stb) \<and>
    download_text_dataset env (arg_task_id a) (arg_dataset a) (arg_file_format a)
      ''/cache/datasets'' stb = (Inr r, st1)"
  then show "main env a st =
        (case download_axolotl_base_model env (arg_model a) ''/cache/models'' st1 of
           (Inl e, st2) \<Rightarrow> (Inl e, st2)
         | (Inr model_path, st2) \<Rightarrow> (Inr (model_path, ''/cache/datasets''), st2))"
    using main_text_task[of a st sta stb env r st1] by blast
next
  show "download_axolotl_base_model env (arg_model a) ''/cache/models'' st1 =
        (if os_path_exists (fs st1) (os_path_join ''/cache/models'' (replace_slash ''--'' (arg_model a)))
         then (Inr (os_path_join ''/cache/models'' (replace_slash ''--'' (arg_model a))), st1)
         else
           (case snapshot_download env (arg_model a) RModel
                   (os_path_join ''/cache/models'' (replace_slash ''--'' (arg_model a))) None (fs st1) of
              (Inl e, root') \<Rightarrow>
                (Inl (LibraryError e),
                 \<lparr>fs = root',
                  calls = calls st1 @
                    [SnapshotDownload (arg_model a) RModel
                       (os_path_join ''/cache/models'' (replace_slash ''--'' (arg_model a))) None]\<rparr>)
            | (Inr u, root') \<Rightarrow>
                (Inr (os_path_join ''/cache/models'' (replace_slash ''--'' (arg_model a))),
                 \<lparr>fs = root',
                  calls = calls st1 @
                    [SnapshotDownload (arg_model a) RModel
                       (os_path_join ''/cache/models'' (replace_slash ''--'' (arg_model a))) None]\<rparr>)))"
    by (rule axolotl_unfold)
next
  assume "arg_task_type a = ''ImageTask'' \<and>
    makedirs ''/cache/datasets'' st = (Inr (), sta) \<and>
    makedirs ''/cache/models'' sta = (Inr (), stb) \<and>
    download_image_dataset env (arg_dataset a) (arg_task_id a) ''/cache/datasets'' stb = (Inr z, sti)"
  then show "main env a st =
        (case download_base_model env (arg_model a) ''/cache/models'' sti of
           (Inl e, st2) \<Rightarrow> (Inl e, st2)
         | (Inr model_path, st2) \<Rightarrow>
             bind (clip_tokenizer env ''openai/clip-vit-large-patch14'' ''/cache/hf_cache'') (\<lambda>_.
             bind (clip_tokenizer env ''laion/CLIP-ViT-bigG-14-laion2B-39B-b160k'' ''/cache/hf_cache'') (\<lambda>_.
             bind (snapshot env ''google/t5-v1_1-xxl'' RModel ''/cache/hf_cache/google--t5-v1_1-xxl''
                     (Some [''tokenizer_config.json'', ''spiece.model'',
                            ''special_tokens_map.json'', ''tokenizer.json'']))
               (\<lambda>_ st3. (Inr (model_path, ''/cache/datasets''), st3)))) st2)"
    using main_image_task[of a st sta stb env z sti] by blast
next
  assume "arg_task_type a \<notin> {''ImageTask'', ''InstructTextTask'', ''DpoTask'', ''GrpoTask''}"
  then show "main env a st = (Inl ArgumentError, st)"
    by (intro main_rejects) (simp add: task_type_choices_def)
qed

text \<open>
  Three runs of \<open>main\<close> with an empty cache: an \<open>InstructTextTask\<close> (one snapshot of
  the model), an \<open>ImageTask\<close> whose model repository lists a 12 GiB weights file
  (listing, then the download of that file), and the task type \<open>ChatTask\<close>, which
  the parser refuses.
\<close>

theorem text_task_model_fetch_witness:
  "arg_task_type ex_args \<in> {''InstructTextTask'', ''DpoTask'', ''GrpoTask''} \<and>
   makedirs ''/cache/datasets'' ex_world = (Inr (), ex_world) \<and>
   makedirs ''/cache/models'' ex_world = (Inr (), ex_world) \<and>
   fst (main (example_env ex_small) ex_args ex_world) =
     Inr (''/cache/models/org--model'', ''/cache/datasets'') \<and>
   calls (snd (main (example_env ex_small) ex_args ex_world)) =
     [HttpGet ''https://ex.com/data.json'',
      SnapshotDownload ''org/model'' RModel ''/cache/models/org--model'' None] \<and>
   arg_task_type ex_args_image = ''ImageTask'' \<and>
   fst (main (example_env ex_weights) ex_args_image ex_world) =
     Inr (''/cache/models/org--model/org_model.safetensors'', ''/cache/datasets'') \<and>
   calls (snd (main (example_env ex_weights) ex_args_image ex_world)) =
     [HttpGet ''https://ex.com/data.zip'',
      ListRepoTree ''org/model'',
      HubDownload ''org/model'' ''model.safetensors'' ''/tmp/tmpdl'',
      ClipFromPretrained ''openai/clip-vit-large-patch14'' ''/cache/hf_cache'',
      ClipFromPretrained ''laion/CLIP-ViT-bigG-14-laion2B-39B-b160k'' ''/cache/hf_cache'',
      SnapshotDownload ''google/t5-v1_1-xxl'' RModel ''/cache/hf_cache/google--t5-v1_1-xxl''
        (Some [''tokenizer_config.json'', ''spiece.model'', ''special_tokens_map.json'',
               ''tokenizer.json''])] \<and>
   main (example_env ex_weights) (ex_args\<lparr>arg_task_type := ''ChatTask''\<rparr>) ex_world =
     (Inl ArgumentError, ex_world)"
proof -
  let ?env = "example_env ex_small"
  let ?envw = "example_env ex_weights"
  have d1: "makedirs ''/cache/datasets'' ex_world = (Inr (), ex_world)"
    and d2: "makedirs ''/cache/models'' ex_world = (Inr (), ex_world)"
    by (rule makedirs_isdir, simp add: ex_world_def ex_root_dirs)+
  have tt: "arg_task_type ex_args \<in> {''InstructTextTask'', ''DpoTask'', ''GrpoTask''}"
    by (simp add: ex_args_sel)
  \<comment> \<open>a text task\<close>
  obtain root2 where
    ds: "download_text_dataset ?env (arg_task_id ex_args) (arg_dataset ex_args) (arg_file_format ex_args)
           ''/cache/datasets'' ex_world =
       (Inr (''/cache/datasets/t1_train_data.json'', Some ''s3''),
        \<lparr>fs = root2, calls = [HttpGet ''https://ex.com/data.json'']\<rparr>)"
    and absent: "\<not> os_path_exists root2 ''/cache/models/org--model''"
    using ex_dataset_run unfolding ex_args_sel by blast
  obtain root3 where snap: "snapshot_download ?env ''org/model'' RModel ''/cache/models/org--model'' None root2 =
      (Inr (), root3)"
    using ex_snapshot_ok by blast
  have run: "fst (main ?env ex_args ex_world) = Inr (''/cache/models/org--model'', ''/cache/datasets'') \<and>
    calls (snd (main ?env ex_args ex_world)) =
     [HttpGet ''https://ex.com/data.json'',
      SnapshotDownload ''org/model'' RModel ''/cache/models/org--model'' None]"
    using text_task_model_fetch[of ex_args ex_world ex_world ex_world ?env
        "(''/cache/datasets/t1_train_data.json'', Some ''s3'')"
        "\<lparr>fs = root2, calls = [HttpGet ''https://ex.com/data.json'']\<rparr>"]
      tt d1 d2 ds absent snap
    by (simp add: ex_args_sel ex_model_paths)
  \<comment> \<open>an image task\<close>
  obtain root1 where
    di: "download_image_dataset ?envw (arg_dataset ex_args_image) (arg_task_id ex_args_image)
           ''/cache/datasets'' ex_world =
       (Inr ''/cache/datasets/t1.zip'', \<lparr>fs = root1, calls = [HttpGet ''https://ex.com/data.zip'']\<rparr>)"
    and mdir: "os_path_isdir root1 ''/cache/models''"
    and mabs: "\<not> os_path_exists root1 ''/cache/models/org--model''"
    using ex_image_dataset_run unfolding ex_args_image_sel by blast
  let ?sti = "\<lparr>fs = root1, calls = [HttpGet ''https://ex.com/data.zip'']\<rparr>"
  have plain: "CHR ''/'' \<notin> set ''org--model''" "''org--model'' \<noteq> []" by simp_all
  have j: "os_path_join ''/cache/models'' ''org--model'' = ''/cache/models/org--model''"
    by (simp add: os_path_join_def startswith_slash_def endswith_slash_def)
  from os_makedirs_child[OF mdir plain] mabs obtain root1' where
    mk: "os_makedirs (fs ?sti) ''/cache/models/org--model'' = Inr root1'"
    unfolding j by auto
  have abs: "startswith_slash ''/cache/models''" by (simp add: startswith_slash_def)
  have hub: "hf_hub_download ?envw ''org/model''
      (path (RepoFile ''model.safetensors'' (Some (12 * GiB)))) = Inr ''weights''"
    and l1: "list_repo_tree ?envw ''org/model'' = Inr ex_weights"
    and tmp: "mkdtemp ?envw = ''/tmp/tmpdl''"
    by (simp_all add: example_env_def)
  from base_model_selective[of "''/cache/models''" ?sti "''org/model''" ?envw ex_weights
      "RepoFile ''model.safetensors'' (Some (12 * GiB))" root1' "''weights''"]
    abs mabs l1 ex_weights_sel mk hub
  obtain root2' where
    bm: "download_base_model ?envw ''org/model'' ''/cache/models'' ?sti =
      (Inr ''/cache/models/org--model/org_model.safetensors'',
       \<lparr>fs = root2',
        calls = [HttpGet ''https://ex.com/data.zip'', ListRepoTree ''org/model'',
                 HubDownload ''org/model'' ''model.safetensors'' ''/tmp/tmpdl'']\<rparr>)"
    unfolding ex_model_paths tmp by auto
  obtain root3' where
    t5: "snapshot ?envw ''google/t5-v1_1-xxl'' RModel ''/cache/hf_cache/google--t5-v1_1-xxl''
           (Some [''tokenizer_config.json'', ''spiece.model'', ''special_tokens_map.json'', ''tokenizer.json''])
           \<lparr>fs = root2',
            calls = [HttpGet ''https://ex.com/data.zip'', ListRepoTree ''org/model'',
                     HubDownload ''org/model'' ''model.safetensors'' ''/tmp/tmpdl'',
                     ClipFromPretrained ''openai/clip-vit-large-patch14'' ''/cache/hf_cache'',
                     ClipFromPretrained ''laion/CLIP-ViT-bigG-14-laion2B-39B-b160k'' ''/cache/hf_cache'']\<rparr> =
         (Inr (),
          \<lparr>fs = root3',
            calls = [HttpGet ''https://ex.com/data.zip'', ListRepoTree ''org/model'',
                     HubDownload ''org/model'' ''model.safetensors'' ''/tmp/tmpdl'',
                     ClipFromPretrained ''openai/clip-vit-large-patch14'' ''/cache/hf_cache'',
                     ClipFromPretrained ''laion/CLIP-ViT-bigG-14-laion2B-39B-b160k'' ''/cache/hf_cache'',
                     SnapshotDownload ''google/t5-v1_1-xxl'' RModel ''/cache/hf_cache/google--t5-v1_1-xxl''
                       (Some [''tokenizer_config.json'', ''spiece.model'', ''special_tokens_map.json'',
                              ''tokenizer.json''])]\<rparr>)"
    using ex_snapshot_run[of ex_weights "''google/t5-v1_1-xxl''" RModel
        "''/cache/hf_cache/google--t5-v1_1-xxl''"
        "Some [''tokenizer_config.json'', ''spiece.model'', ''special_tokens_map.json'', ''tokenizer.json'']"
        "\<lparr>fs = root2',
            calls = [HttpGet ''https://ex.com/data.zip'', ListRepoTree ''org/model'',
                     HubDownload ''org/model'' ''model.safetensors'' ''/tmp/tmpdl'',
                     ClipFromPretrained ''openai/clip-vit-large-patch14'' ''/cache/hf_cache'',
                     ClipFromPretrained ''laion/CLIP-ViT-bigG-14-laion2B-39B-b160k'' ''/cache/hf_cache'']\<rparr>"]
    by auto
  have ti: "arg_task_type ex_args_image = ''ImageTask''" by (simp add: ex_args_image_sel)
  have img: "fst (main ?envw ex_args_image ex_world) =
       Inr (''/cache/models/org--model/org_model.safetensors'', ''/cache/datasets'') \<and>
     calls (snd (main ?envw ex_args_image ex_world)) =
       [HttpGet ''https://ex.com/data.zip'',
        ListRepoTree ''org/model'',
        HubDownload ''org/model'' ''model.safetensors'' ''/tmp/tmpdl'',
        ClipFromPretrained ''openai/clip-vit-large-patch14'' ''/cache/hf_cache'',
        ClipFromPretrained ''laion/CLIP-ViT-bigG-14-laion2B-39B-b160k'' ''/cache/hf_cache'',
        SnapshotDownload ''google/t5-v1_1-xxl'' RModel ''/cache/hf_cache/google--t5-v1_1-xxl''
          (Some [''tokenizer_config.json'', ''spiece.model'', ''special_tokens_map.json'',
                 ''tokenizer.json''])]"
    using text_task_model_fetch[of ex_args_image ex_world ex_world ex_world ?envw _ _
        "''/cache/datasets/t1.zip''" ?sti]
      ti d1 d2 di bm t5
    by (simp add: ex_args_image_sel bind_def ex_clip)
  \<comment> \<open>a task type the parser refuses\<close>
  have rej: "main ?envw (ex_args\<lparr>arg_task_type := ''ChatTask''\<rparr>) ex_world = (Inl ArgumentError, ex_world)"
    using text_task_model_fetch[of "ex_args\<lparr>arg_task_type := ''ChatTask''\<rparr>" ex_world _ _ ?envw]
    by simp
  show ?thesis using tt d1 d2 run ti img rej by simp
qed

text \<open>
  C1 as stated fails: for an \<open>InstructTextTask\<close> whose model repository lists a
  \<open>model.safetensors\<close> of 12 GiB, which the selector would choose, \<open>main\<close> makes
  the dataset request and one full snapshot, and never lists the repository.
\<close>

theorem text_task_no_selection_counterexample:
  "arg_task_type ex_args \<noteq> ''ImageTask'' \<and>
   largest_over total_check_size ex_weights = Some (RepoFile ''model.safetensors'' (Some (12 * GiB))) \<and>
   list_repo_tree (example_env ex_weights) ''org/model'' = Inr ex_weights \<and>
   fst (main (example_env ex_weights) ex_args ex_world) =
     Inr (''/cache/models/org--model'', ''/cache/datasets'') \<and>
   calls (snd (main (example_env ex_weights) ex_args ex_world)) =
     [HttpGet ''https://ex.com/data.json'',
      SnapshotDownload ''org/model'' RModel ''/cache/models/org--model'' None]"
proof -
  let ?env = "example_env ex_weights"
  obtain root2 where
    ds: "download_text_dataset ?env (arg_task_id ex_args) (arg_dataset ex_args) (arg_file_format ex_args)
           ''/cache/datasets'' ex_world =
       (Inr (''/cache/datasets/t1_train_data.json'', Some ''s3''),
        \<lparr>fs = root2, calls = [HttpGet ''https://ex.com/data.json'']\<rparr>)"
    and absent: "\<not> os_path_exists root2 ''/cache/models/org--model''"
    using ex_dataset_run unfolding ex_args_sel by blast
  have d1: "makedirs ''/cache/datasets'' ex_world = (Inr (), ex_world)"
    and d2: "makedirs ''/cache/models'' ex_world = (Inr (), ex_world)"
    by (rule makedirs_isdir, simp add: ex_world_def ex_root_dirs)+
  have tt: "arg_task_type ex_args \<in> {''InstructTextTask'', ''DpoTask'', ''GrpoTask''}"
    by (simp add: ex_args_sel)
  obtain root3 where snap: "snapshot_download ?env ''org/model'' RModel ''/cache/models/org--model'' None root2 =
      (Inr (), root3)"
    using ex_snapshot_ok by blast
  have run: "fst (main ?env ex_args ex_world) = Inr (''/cache/models/org--model'', ''/cache/datasets'') \<and>
    calls (snd (main ?env ex_args ex_world)) =
     [HttpGet ''https://ex.com/data.json'',
      SnapshotDownload ''org/model'' RModel ''/cache/models/org--model'' None]"
    using absent snap
    by (simp add: main_text_task[OF tt d1 d2 ds] axolotl_unfold ex_args_sel ex_model_paths)
  show ?thesis
    using run ex_weights_sel by (simp add: ex_args_sel example_env_def)
qed

end
